theory Spec2Isabelle
  imports Complex_Main "HOL-Library.Word"
begin

section \<open>Clock times, buffers, segments and video infos\<close>

text \<open>
  \<^verbatim>\<open>GstClockTime\<close> is a \<^verbatim>\<open>guint64\<close> counting nanoseconds; the undefined
  sentinel \<^verbatim>\<open>GST_CLOCK_TIME_NONE\<close> is \<^verbatim>\<open>(guint64) -1\<close>.
  \<^verbatim>\<open>GstClockTimeDiff\<close> is a \<^verbatim>\<open>gint64\<close>: the same 64 bits read by \<open>sint\<close>.
  A \<^verbatim>\<open>gdouble\<close> is represented by the rational number it denotes.
\<close>

type_synonym GstClockTime = "64 word"
type_synonym GstClockTimeDiff = "64 word"
type_synonym gdouble = rat

definition GST_CLOCK_TIME_NONE :: GstClockTime where
  "GST_CLOCK_TIME_NONE = - 1"

definition GST_SECOND :: GstClockTime where
  "GST_SECOND = 1000000000"

definition GST_CLOCK_TIME_IS_VALID :: "GstClockTime \<Rightarrow> bool" where
  "GST_CLOCK_TIME_IS_VALID t = (t \<noteq> GST_CLOCK_TIME_NONE)"

definition G_MAXUINT64 :: "64 word" where
  "G_MAXUINT64 = - 1"

text \<open>
  Modelled from the spec: the rounding helpers \<^verbatim>\<open>gst_util_uint64_scale_round\<close> and
  \<^verbatim>\<open>gst_util_uint64_scale_int_round\<close> of the host framework, which the spec
  describes as \<open>val * num / denom\<close> rounded to the nearest integer. The framework
  computes the product without intermediate overflow, answers \<^verbatim>\<open>G_MAXUINT64\<close> when the
  quotient does not fit 64 bits, and refuses a zero denominator with the same value.
\<close>

definition gst_util_uint64_scale_round :: "64 word \<Rightarrow> 64 word \<Rightarrow> 64 word \<Rightarrow> 64 word" where
  "gst_util_uint64_scale_round val num denom =
     (if denom = 0 then G_MAXUINT64
      else let q = (unat val * unat num + unat denom div 2) div unat denom
           in if q < 2 ^ 64 then of_nat q else G_MAXUINT64)"

text \<open>
  The \<^verbatim>\<open>_int\<close> variant takes \<^verbatim>\<open>gint\<close> arguments and refuses a negative numerator
  and a non-positive denominator.
\<close>

definition gst_util_uint64_scale_int_round :: "64 word \<Rightarrow> int \<Rightarrow> int \<Rightarrow> 64 word" where
  "gst_util_uint64_scale_int_round val num denom =
     (if denom \<le> 0 \<or> num < 0 then G_MAXUINT64
      else let q = (unat val * nat num + nat denom div 2) div nat denom
           in if q < 2 ^ 64 then of_nat q else G_MAXUINT64)"

record GstBuffer =
  buf_timestamp :: GstClockTime
  buf_duration :: GstClockTime

record GstSegment =
  seg_rate :: gdouble
  seg_start :: "64 word"
  seg_stop :: "64 word"
  seg_time :: "64 word"
  seg_base :: "64 word"
  seg_position :: "64 word"

text \<open>\<^verbatim>\<open>gst_segment_init (segment, GST_FORMAT_TIME)\<close>.\<close>

definition gst_segment_init :: GstSegment where
  "gst_segment_init =
     \<lparr>seg_rate = 1, seg_start = 0, seg_stop = - 1, seg_time = 0, seg_base = 0,
      seg_position = 0\<rparr>"

datatype GstVideoFormat =
    UNKNOWN | AYUV | BGRA | ARGB | RGBA | ABGR | Y444 | Y42B | YUY2 | UYVY | YVYU
  | I420 | YV12 | NV12 | NV21 | Y41B | RGB | BGR | xRGB | xBGR | RGBx | BGRx

text \<open>
  \<^verbatim>\<open>GstVideoInfo\<close>: \<open>finfo\<close> is the pointer to the format description (\<open>None\<close> is
  \<^verbatim>\<open>NULL\<close>), of which the mixer reads the format code and the alpha flag.
\<close>

record GstVideoFormatInfo =
  fi_format :: GstVideoFormat
  fi_alpha :: bool

record GstVideoInfo =
  finfo :: "GstVideoFormatInfo option"
  width :: int
  height :: int
  fps_n :: int
  fps_d :: int
  par_n :: int
  par_d :: int
  interlace_mode :: nat
  colorimetry :: string
  chroma_site :: string

text \<open>
  \<^verbatim>\<open>gst_video_format_get_info\<close> of the host framework, for the formats of the pad
  templates: the five formats with an alpha channel carry \<^verbatim>\<open>GST_VIDEO_FORMAT_FLAG_ALPHA\<close>.
\<close>

definition gst_video_format_get_info :: "GstVideoFormat \<Rightarrow> GstVideoFormatInfo" where
  "gst_video_format_get_info f =
     \<lparr>fi_format = f, fi_alpha = (f = AYUV \<or> f = BGRA \<or> f = ARGB \<or> f = RGBA \<or> f = ABGR)\<rparr>"

text \<open>\<^verbatim>\<open>gst_video_info_init\<close>: the unknown format, no size, framerate 0/1, PAR 1/1.\<close>

definition gst_video_info_init :: GstVideoInfo where
  "gst_video_info_init =
     \<lparr>finfo = Some (gst_video_format_get_info UNKNOWN), width = 0, height = 0,
      fps_n = 0, fps_d = 1, par_n = 1, par_d = 1, interlace_mode = 0,
      colorimetry = [], chroma_site = []\<rparr>"

text \<open>
  \<^verbatim>\<open>GST_VIDEO_INFO_FORMAT (info)\<close> is \<^verbatim>\<open>info->finfo->format\<close>; it is only read
  where \<open>finfo\<close> is not \<^verbatim>\<open>NULL\<close>.
\<close>

definition GST_VIDEO_INFO_FORMAT :: "GstVideoInfo \<Rightarrow> GstVideoFormat" where
  "GST_VIDEO_INFO_FORMAT i = (case finfo i of None \<Rightarrow> UNKNOWN | Some fi \<Rightarrow> fi_format fi)"

text \<open>Fixed caps are the video info they were built from by \<^verbatim>\<open>gst_video_info_to_caps\<close>.\<close>

type_synonym GstCaps = GstVideoInfo

text \<open>A converter handle records the two infos it was created for.\<close>

type_synonym VideoConvert = "GstVideoInfo \<times> GstVideoInfo"

text \<open>A mapped video frame: the info it was mapped with and the buffer.\<close>

type_synonym GstVideoFrame = "GstVideoInfo \<times> GstBuffer"

section \<open>Pads and the mixer\<close>

text \<open>
  One sink pad. The first fields are those of the \<^verbatim>\<open>GstBaseAggregatorPad\<close> the pad
  derives from (its pending input buffer, segment and EOS flag), then those of
  \<^verbatim>\<open>GstBasemixerPad\<close>, then those of \<^verbatim>\<open>GstVideomixer2Pad\<close>.
\<close>

record GstBasemixerPad =
  pad_name :: string
  bpad_buffer :: "GstBuffer option"
  bpad_segment :: GstSegment
  bpad_eos :: bool
  pad_info :: GstVideoInfo
  zorder :: "32 word"
  convert :: "VideoConvert option"
  need_conversion_update :: bool
  conversion_info :: GstVideoInfo
  pad_buffer :: "GstBuffer option"
  buffer_vinfo :: GstVideoInfo
  queued :: "GstBuffer option"
  queued_vinfo :: GstVideoInfo
  start_time :: GstClockTime
  end_time :: GstClockTime
  mixed_frame :: "GstVideoFrame option"
  xpos :: int
  ypos :: int
  alpha :: gdouble

datatype GstVideoMixer2Background =
    VIDEO_MIXER2_BACKGROUND_CHECKER
  | VIDEO_MIXER2_BACKGROUND_BLACK
  | VIDEO_MIXER2_BACKGROUND_WHITE
  | VIDEO_MIXER2_BACKGROUND_TRANSPARENT

text \<open>
  The mixer: \<open>segment\<close> is \<^verbatim>\<open>agg->segment\<close>, \<open>srcpad_reconfigure\<close> the
  need-reconfigure flag of the source pad, \<open>info\<close> the output info.
\<close>

record GstBasemixer =
  segment :: GstSegment
  srcpad_reconfigure :: bool
  info :: GstVideoInfo
  ts_offset :: GstClockTime
  nframes :: "64 word"
  sinkpads :: "GstBasemixerPad list"
  numpads :: "32 word"
  current_caps :: "GstCaps option"
  send_caps :: bool
  send_stream_start :: bool
  newseg_pending :: bool
  pending_tags :: "string list option"
  proportion :: gdouble
  earliest_time :: GstClockTime
  qos_processed :: "64 word"
  qos_dropped :: "64 word"
  background :: GstVideoMixer2Background

section \<open>Quality of service\<close>

text \<open>\<^verbatim>\<open>gst_basemixer_update_qos\<close>.\<close>

definition gst_basemixer_update_qos ::
  "gdouble \<Rightarrow> GstClockTimeDiff \<Rightarrow> GstClockTime \<Rightarrow> GstBasemixer \<Rightarrow> GstBasemixer" where
  "gst_basemixer_update_qos prop diff ts mix =
     mix\<lparr>proportion := prop,
       earliest_time :=
         (if ts \<noteq> GST_CLOCK_TIME_NONE then
            (if 0 < sint diff
             then ts + 2 * diff +
                  gst_util_uint64_scale_int_round GST_SECOND (fps_d (info mix)) (fps_n (info mix))
             else ts + diff)
          else GST_CLOCK_TIME_NONE)\<rparr>"

text \<open>\<^verbatim>\<open>gst_basemixer_reset_qos\<close>.\<close>

definition gst_basemixer_reset_qos :: "GstBasemixer \<Rightarrow> GstBasemixer" where
  "gst_basemixer_reset_qos mix =
     (gst_basemixer_update_qos (1 / 2) 0 GST_CLOCK_TIME_NONE mix)
       \<lparr>qos_processed := 0, qos_dropped := 0\<rparr>"

text \<open>
  \<^verbatim>\<open>gst_basemixer_do_qos\<close>: the jitter, a \<^verbatim>\<open>gint64\<close>. \<open>rt\<close> is
  \<^verbatim>\<open>gst_segment_to_running_time\<close> of the host framework.
\<close>

definition gst_basemixer_do_qos ::
  "(GstSegment \<Rightarrow> 64 word \<Rightarrow> 64 word) \<Rightarrow> GstBasemixer \<Rightarrow> GstClockTime \<Rightarrow> 64 word" where
  "gst_basemixer_do_qos rt mix ts =
     (if \<not> GST_CLOCK_TIME_IS_VALID ts then - 1
      else if \<not> GST_CLOCK_TIME_IS_VALID (earliest_time mix) then - 1
      else earliest_time mix - rt (segment mix) ts)"


section \<open>The host framework\<close>

text \<open>
  What the mixer calls and does not define is a parameter of the model: the two segment
  conversions, the default colorimetry of a format, the parsing of caps into an info,
  the peer of the source pad (\<open>None\<close> when the caps query yields nothing, else a
  function that answers \<open>None\<close> for an empty intersection or the fixated width, height
  and framerate), the caps allowed downstream (\<open>None\<close> when \<^verbatim>\<open>NULL\<close> or empty, else
  the test \<^verbatim>\<open>gst_caps_can_intersect\<close> of them against caps that hold a format, a
  colorimetry and a chroma siting only) with the info of their fixation, the
  converter factory and the flow return of a pushed buffer.
\<close>

datatype GstFlowReturn =
    GST_FLOW_OK | GST_FLOW_NOT_NEGOTIATED | GST_FLOW_EOS | GST_FLOW_ERROR
  | GST_FLOW_FLUSHING | GST_FLOW_NOT_LINKED

text \<open>What \<^verbatim>\<open>mix_frames\<close> does to the output frame, in order.\<close>

datatype paint =
    FillChecker
  | FillColor nat nat nat
  | ClearPlanes
  | Composite bool string GstVideoFrame int int gdouble

record out_buffer =
  out_timestamp :: GstClockTime
  out_duration :: GstClockTime
  out_paints :: "paint list"

record qos_message =
  qm_running_time :: "64 word"
  qm_stream_time :: "64 word"
  qm_timestamp :: "64 word"
  qm_duration :: "64 word"
  qm_jitter :: "64 word"
  qm_proportion :: gdouble
  qm_quality :: int
  qm_processed :: "64 word"
  qm_dropped :: "64 word"

text \<open>What the mixer sends out: events and buffers downstream, messages to the bus.\<close>

datatype emission =
    SetSrcCaps "GstCaps option"
  | PushTagEvent "string list"
  | PushEosEvent
  | PostQosMessage qos_message
  | PostNegotiationError
  | FinishBuffer out_buffer

record env =
  to_running_time :: "GstSegment \<Rightarrow> 64 word \<Rightarrow> 64 word"
  to_stream_time :: "GstSegment \<Rightarrow> 64 word \<Rightarrow> 64 word"
  set_default_colorimetry :: "GstVideoInfo \<Rightarrow> GstVideoInfo"
  video_info_from_caps :: "GstCaps \<Rightarrow> GstVideoInfo option"
  peer_query_caps :: "(GstCaps \<Rightarrow> (int \<times> int \<times> int \<times> int) option) option"
  allowed_caps :: "(GstVideoFormat \<times> string \<times> string \<Rightarrow> bool) option"
  allowed_caps_fixated :: GstCaps
  videoconvert_convert_new :: "GstVideoInfo \<Rightarrow> GstVideoInfo \<Rightarrow> VideoConvert option"
  finish_buffer :: "out_buffer \<Rightarrow> GstFlowReturn"

text \<open>
  \<^verbatim>\<open>gst_video_info_set_format\<close>: refuses the unknown format, otherwise sets the
  format description and the size and the default colorimetry of the format.
\<close>

definition gst_video_info_set_format ::
  "env \<Rightarrow> GstVideoInfo \<Rightarrow> GstVideoFormat \<Rightarrow> int \<Rightarrow> int \<Rightarrow> GstVideoInfo" where
  "gst_video_info_set_format e i f w h =
     (if f = UNKNOWN then i
      else set_default_colorimetry e
             (i\<lparr>finfo := Some (gst_video_format_get_info f), width := w, height := h\<rparr>))"

text \<open>
  \<^verbatim>\<open>x *= ABS (agg->segment.rate)\<close> under \<^verbatim>\<open>if (ABS (agg->segment.rate) != 1.0)\<close>:
  the \<^verbatim>\<open>guint64\<close> is converted to a double, multiplied and truncated back. The product
  is taken exactly here, which is what the C computes whenever the operands and the
  product are representable (a rate that is a small power of two, times below \<open>2^52\<close>).
\<close>

definition convert_to_output_rate :: "gdouble \<Rightarrow> 64 word \<Rightarrow> 64 word" where
  "convert_to_output_rate r t =
     (if \<bar>r\<bar> \<noteq> 1 then of_int \<lfloor>of_nat (unat t) * \<bar>r\<bar>\<rfloor> else t)"

section \<open>The queue filler\<close>

text \<open>
  One pad's turn in the loop of \<^verbatim>\<open>gst_basemixer_fill_queues\<close> ends in
  \<^verbatim>\<open>return -2\<close>, in a failed \<^verbatim>\<open>g_assert\<close>, or goes on to the next pad with the
  pad updated and the flags \<open>eos\<close> and \<open>need_more_data\<close>.
\<close>

datatype fill_step = FillError | FillAbort | FillNext GstBasemixerPad bool bool

text \<open>
  The part of the loop body from the first \<^verbatim>\<open>g_assert\<close> on: \<open>buf\<close> is the buffer
  under consideration, \<open>fromq\<close> says that it is \<^verbatim>\<open>pad->queued\<close>, \<open>st\<close> and \<open>dur\<close>
  are \<^verbatim>\<open>start_time\<close> and \<^verbatim>\<open>end_time\<close> at that point.
\<close>

definition fill_timed ::
  "(GstSegment \<Rightarrow> 64 word \<Rightarrow> 64 word) \<Rightarrow> gdouble \<Rightarrow> GstClockTime \<Rightarrow> GstClockTime \<Rightarrow>
   GstBasemixerPad \<Rightarrow> bool \<Rightarrow> bool \<Rightarrow> GstBuffer \<Rightarrow> GstVideoInfo \<Rightarrow> bool \<Rightarrow>
   GstClockTime \<Rightarrow> GstClockTime \<Rightarrow> fill_step" where
  "fill_timed rt rate output_start_time output_end_time pad eos need_more_data buf vinfo fromq st dur =
     (if st = - 1 \<or> dur = - 1 then FillAbort
      else
        let e0 = dur + st;
            seg = bpad_segment pad;
            dropped = (if fromq then pad\<lparr>queued := None\<rparr> else pad)
        in if seg_stop seg \<le> st \<or> e0 < seg_start seg then FillNext dropped eos True
           else
             let s1 = max st (seg_start seg);
                 e1 = (if seg_stop seg \<noteq> - 1 then min e0 (seg_stop seg) else e0);
                 s2 = rt seg s1;
                 e2 = rt seg e1
             in if s2 = - 1 \<or> e2 = - 1 then FillAbort
                else
                  let s3 = convert_to_output_rate rate s2;
                      e3 = convert_to_output_rate rate e2
                  in if end_time pad \<noteq> - 1 \<and> e3 < end_time pad
                     then FillNext dropped eos True
                     else if output_start_time \<le> e3 \<and> s3 < output_end_time
                     then FillNext
                            (dropped\<lparr>pad_buffer := Some buf, buffer_vinfo := vinfo,
                                     start_time := s3, end_time := e3\<rparr>) False need_more_data
                     else if output_end_time \<le> s3 then FillNext pad False need_more_data
                     else FillNext dropped eos True)"

definition fill_pad ::
  "(GstSegment \<Rightarrow> 64 word \<Rightarrow> 64 word) \<Rightarrow> gdouble \<Rightarrow> GstClockTime \<Rightarrow> GstClockTime \<Rightarrow>
   GstBasemixerPad \<Rightarrow> bool \<Rightarrow> bool \<Rightarrow> fill_step" where
  "fill_pad rt rate output_start_time output_end_time pad eos need_more_data =
     (case bpad_buffer pad of
        Some buf \<Rightarrow>
          if buf_timestamp buf = - 1 then FillError
          else if (case pad_buffer pad of
                     Some b \<Rightarrow> buf_timestamp buf < buf_timestamp b | None \<Rightarrow> False) \<or>
                  (case queued pad of
                     Some q \<Rightarrow> buf_timestamp buf < buf_timestamp q | None \<Rightarrow> False)
          then FillNext pad eos True
          else
            (case queued pad of
               Some q \<Rightarrow>
                 fill_timed rt rate output_start_time output_end_time pad eos need_more_data
                   q (queued_vinfo pad) True (buf_timestamp q)
                   (buf_timestamp buf - buf_timestamp q)
             | None \<Rightarrow>
                 if buf_duration buf = - 1
                 then FillNext (pad\<lparr>queued := Some buf, queued_vinfo := pad_info pad\<rparr>) eos True
                 else fill_timed rt rate output_start_time output_end_time pad eos
                        need_more_data buf (pad_info pad) False (buf_timestamp buf)
                        (buf_duration buf))
      | None \<Rightarrow>
          if end_time pad \<noteq> - 1 then
            (if end_time pad \<le> output_start_time
             then FillNext (pad\<lparr>pad_buffer := None, start_time := - 1, end_time := - 1\<rparr>)
                    eos (if bpad_eos pad then True else need_more_data)
             else if bpad_eos pad then FillNext pad False need_more_data
             else FillNext pad eos need_more_data)
          else FillNext pad eos need_more_data)"

text \<open>
  The loop over \<^verbatim>\<open>mix->sinkpads\<close> and the return value: 1 is OK, 0 need more data,
  -1 EOS, -2 error; \<open>None\<close> is a failed assertion. The pads come back as the loop left
  them.
\<close>

fun fill_queues_loop ::
  "(GstSegment \<Rightarrow> 64 word \<Rightarrow> 64 word) \<Rightarrow> gdouble \<Rightarrow> GstClockTime \<Rightarrow> GstClockTime \<Rightarrow>
   GstBasemixerPad list \<Rightarrow> bool \<Rightarrow> bool \<Rightarrow> (int \<times> GstBasemixerPad list) option" where
  "fill_queues_loop rt rate os oe [] eos need_more_data =
     Some (if need_more_data then 0 else if eos then - 1 else 1, [])"
| "fill_queues_loop rt rate os oe (pad # l) eos need_more_data =
     (case fill_pad rt rate os oe pad eos need_more_data of
        FillError \<Rightarrow> Some (- 2, pad # l)
      | FillAbort \<Rightarrow> None
      | FillNext pad' eos' need_more_data' \<Rightarrow>
          (case fill_queues_loop rt rate os oe l eos' need_more_data' of
             None \<Rightarrow> None
           | Some (res, l') \<Rightarrow> Some (res, pad' # l')))"

definition gst_basemixer_fill_queues ::
  "env \<Rightarrow> GstBasemixer \<Rightarrow> GstClockTime \<Rightarrow> GstClockTime \<Rightarrow> (int \<times> GstBasemixer) option" where
  "gst_basemixer_fill_queues e mix output_start_time output_end_time =
     (case fill_queues_loop (to_running_time e) (seg_rate (segment mix))
             output_start_time output_end_time (sinkpads mix) True False of
        None \<Rightarrow> None
      | Some (res, l) \<Rightarrow> Some (res, mix\<lparr>sinkpads := l\<rparr>))"


section \<open>Output caps\<close>

text \<open>
  The five locals of \<^verbatim>\<open>gst_basemixer_update_src_caps\<close> that its scan of the pads
  maintains.
\<close>

record best =
  best_width :: int
  best_height :: int
  best_fps :: gdouble
  best_fps_n :: int
  best_fps_d :: int

text \<open>\<^verbatim>\<open>gst_util_fraction_to_double\<close>, called with a non-zero denominator.\<close>

definition gst_util_fraction_to_double :: "int \<Rightarrow> int \<Rightarrow> gdouble" where
  "gst_util_fraction_to_double n d = of_int n / of_int d"

text \<open>The \<^verbatim>\<open>for\<close> loop over the pads of \<^verbatim>\<open>gst_basemixer_update_src_caps\<close>.\<close>

fun update_src_caps_loop :: "GstBasemixerPad list \<Rightarrow> best \<Rightarrow> best" where
  "update_src_caps_loop [] b = b"
| "update_src_caps_loop (mpad # l) b =
     (if width (pad_info mpad) = 0 \<or> height (pad_info mpad) = 0
      then update_src_caps_loop l b
      else
        let b1 = (if best_width b < width (pad_info mpad)
                  then b\<lparr>best_width := width (pad_info mpad)\<rparr> else b);
            b2 = (if best_height b1 < height (pad_info mpad)
                  then b1\<lparr>best_height := height (pad_info mpad)\<rparr> else b1);
            cur_fps = (if fps_d (pad_info mpad) = 0 then 0
                       else gst_util_fraction_to_double (fps_n (pad_info mpad))
                              (fps_d (pad_info mpad)));
            b3 = (if best_fps b2 < cur_fps
                  then b2\<lparr>best_fps := cur_fps, best_fps_n := fps_n (pad_info mpad),
                          best_fps_d := fps_d (pad_info mpad)\<rparr>
                  else b2)
        in update_src_caps_loop l b3)"

text \<open>The locals after the loop and the defaulting of the framerate that follows it.\<close>

definition update_src_caps_best :: "GstBasemixerPad list \<Rightarrow> best" where
  "update_src_caps_best pads =
     (let b = update_src_caps_loop pads
                \<lparr>best_width = - 1, best_height = - 1, best_fps = - 1,
                 best_fps_n = - 1, best_fps_d = - 1\<rparr>
      in if best_fps_n b \<le> 0 \<or> best_fps_d b \<le> 0 \<or> best_fps b = 0
         then b\<lparr>best_fps := 25, best_fps_n := 25, best_fps_d := 1\<rparr>
         else b)"

text \<open>\<^verbatim>\<open>gst_basemixer_src_setcaps\<close>.\<close>

definition gst_basemixer_src_setcaps ::
  "env \<Rightarrow> GstBasemixer \<Rightarrow> GstCaps \<Rightarrow> bool \<times> GstBasemixer" where
  "gst_basemixer_src_setcaps e mix caps =
     (case video_info_from_caps e caps of
        None \<Rightarrow> (False, mix)
      | Some i \<Rightarrow>
          let mix1 =
                (if fps_n (info mix) \<noteq> fps_n i \<or> fps_d (info mix) \<noteq> fps_d i
                 then gst_basemixer_reset_qos
                        (if seg_position (segment mix) \<noteq> - 1
                         then mix\<lparr>ts_offset := seg_position (segment mix) - seg_start (segment mix),
                                  nframes := 0\<rparr>
                         else mix)
                 else mix);
              mix2 = mix1\<lparr>info := i\<rparr>
          in (True,
              if current_caps mix2 = None \<or> current_caps mix2 \<noteq> Some caps
              then mix2\<lparr>current_caps := Some caps, send_caps := True\<rparr>
              else mix2))"

text \<open>
  \<^verbatim>\<open>set_functions\<close> of the positioned mixer picks the pixel primitives of a format;
  it succeeds for each of the 21 formats and fails for any other.
\<close>

definition set_functions :: "GstVideoFormat \<Rightarrow> bool" where
  "set_functions f = (f \<noteq> UNKNOWN)"

text \<open>The loop of \<^verbatim>\<open>gst_videomixer2_modify_src_pad_info\<close> on its two locals.\<close>

fun modify_src_pad_info_loop :: "GstBasemixerPad list \<Rightarrow> int \<times> int \<Rightarrow> int \<times> int" where
  "modify_src_pad_info_loop [] b = b"
| "modify_src_pad_info_loop (pad # l) (bw, bh) =
     (if width (pad_info pad) = 0 \<or> height (pad_info pad) = 0
      then modify_src_pad_info_loop l (bw, bh)
      else modify_src_pad_info_loop l
             (max bw (width (pad_info pad) + max (xpos pad) 0),
              max bh (height (pad_info pad) + max (ypos pad) 0)))"

text \<open>
  \<^verbatim>\<open>gst_videomixer2_modify_src_pad_info\<close>, the \<^verbatim>\<open>modify_src_pad_info\<close> hook of the
  mixer class: \<open>None\<close> is \<^verbatim>\<open>FALSE\<close>, otherwise the adjusted info.
\<close>

definition gst_videomixer2_modify_src_pad_info ::
  "env \<Rightarrow> GstBasemixer \<Rightarrow> GstVideoInfo \<Rightarrow> GstVideoInfo option" where
  "gst_videomixer2_modify_src_pad_info e mix i =
     (case modify_src_pad_info_loop (sinkpads mix) (- 1, - 1) of
        (bw, bh) \<Rightarrow>
          if 0 < bw \<and> 0 < bh then
            (let i1 = gst_video_info_set_format e i (GST_VIDEO_INFO_FORMAT i) bw bh
             in if set_functions (GST_VIDEO_INFO_FORMAT i1) then Some i1 else None)
          else None)"

text \<open>\<^verbatim>\<open>gst_basemixer_update_src_caps\<close>: the return value and the mixer.\<close>

definition gst_basemixer_update_src_caps :: "env \<Rightarrow> GstBasemixer \<Rightarrow> bool \<times> GstBasemixer" where
  "gst_basemixer_update_src_caps e mix =
     (let b = update_src_caps_best (sinkpads mix)
      in if 0 < best_width b \<and> 0 < best_height b \<and> 0 < best_fps b then
           (let mix1 =
                  (if (fps_n (info mix) \<noteq> best_fps_n b \<or> fps_d (info mix) \<noteq> best_fps_d b) \<and>
                      seg_position (segment mix) \<noteq> - 1
                   then mix\<lparr>ts_offset := seg_position (segment mix) - seg_start (segment mix),
                            nframes := 0\<rparr>
                   else mix);
                i = (gst_video_info_set_format e gst_video_info_init
                       (GST_VIDEO_INFO_FORMAT (info mix)) (best_width b) (best_height b))
                      \<lparr>fps_n := best_fps_n b, fps_d := best_fps_d b,
                       par_n := par_n (info mix), par_d := par_d (info mix)\<rparr>
            in case gst_videomixer2_modify_src_pad_info e mix1 i of
                 None \<Rightarrow> (False, mix1)
               | Some i1 \<Rightarrow>
                   (case peer_query_caps e of
                      None \<Rightarrow> gst_basemixer_src_setcaps e mix1 i1
                    | Some peer \<Rightarrow>
                        (case peer i1 of
                           None \<Rightarrow> (False, mix1)
                         | Some (w, h, n, d) \<Rightarrow>
                             gst_basemixer_src_setcaps e mix1
                               (i1\<lparr>width := w, height := h, fps_n := n, fps_d := d\<rparr>))))
         else (True, mix))"

section \<open>Blending\<close>

text \<open>
  \<^verbatim>\<open>gst_videomixer2_mix_frames\<close>: the background, then one composite call for each
  pad of \<^verbatim>\<open>mix->sinkpads\<close>, in list order, that has a mixed frame. The flag of
  \<open>Composite\<close> says that the overlay primitive is the one called.
\<close>

fun mix_frames_loop :: "bool \<Rightarrow> GstBasemixerPad list \<Rightarrow> paint list" where
  "mix_frames_loop ov [] = []"
| "mix_frames_loop ov (pad # l) =
     (case mixed_frame pad of
        None \<Rightarrow> mix_frames_loop ov l
      | Some f \<Rightarrow>
          Composite ov (pad_name pad) f (xpos pad) (ypos pad) (alpha pad) # mix_frames_loop ov l)"

definition gst_videomixer2_mix_frames :: "GstBasemixer \<Rightarrow> paint list" where
  "gst_videomixer2_mix_frames mix =
     (case background mix of
        VIDEO_MIXER2_BACKGROUND_CHECKER \<Rightarrow> FillChecker # mix_frames_loop False (sinkpads mix)
      | VIDEO_MIXER2_BACKGROUND_BLACK \<Rightarrow> FillColor 16 128 128 # mix_frames_loop False (sinkpads mix)
      | VIDEO_MIXER2_BACKGROUND_WHITE \<Rightarrow> FillColor 240 128 128 # mix_frames_loop False (sinkpads mix)
      | VIDEO_MIXER2_BACKGROUND_TRANSPARENT \<Rightarrow> ClearPlanes # mix_frames_loop True (sinkpads mix))"

text \<open>
  The body of the first loop of \<^verbatim>\<open>gst_basemixer_blend_buffers\<close>: a pad with a current
  buffer gets its mixed frame, converted when the pad has a converter. No control
  binding is attached to the pad, so \<^verbatim>\<open>gst_object_sync_values\<close> changes nothing.
\<close>

definition blend_prepare_pad :: "env \<Rightarrow> GstVideoInfo \<Rightarrow> GstBasemixerPad \<Rightarrow> GstBasemixerPad" where
  "blend_prepare_pad e mixinfo pad =
     (case pad_buffer pad of
        None \<Rightarrow> pad
      | Some b \<Rightarrow>
          (case convert pad of
             None \<Rightarrow> pad\<lparr>mixed_frame := Some (buffer_vinfo pad, b)\<rparr>
           | Some c \<Rightarrow>
               let pad1 =
                     (if need_conversion_update pad
                      then pad\<lparr>conversion_info :=
                                 gst_video_info_set_format e mixinfo (GST_VIDEO_INFO_FORMAT mixinfo)
                                   (width (pad_info pad)) (height (pad_info pad)),
                               need_conversion_update := False\<rparr>
                      else pad)
               in pad1\<lparr>mixed_frame :=
                          Some (conversion_info pad1,
                                \<lparr>buf_timestamp = - 1, buf_duration = - 1\<rparr>)\<rparr>))"

text \<open>\<^verbatim>\<open>gst_basemixer_blend_buffers\<close>: the output buffer and the mixer.\<close>

definition gst_basemixer_blend_buffers ::
  "env \<Rightarrow> GstBasemixer \<Rightarrow> GstClockTime \<Rightarrow> GstClockTime \<Rightarrow> out_buffer \<times> GstBasemixer" where
  "gst_basemixer_blend_buffers e mix output_start_time output_end_time =
     (let mix1 = mix\<lparr>sinkpads := map (blend_prepare_pad e (info mix)) (sinkpads mix)\<rparr>;
          outbuf = \<lparr>out_timestamp = output_start_time,
                    out_duration = output_end_time - output_start_time,
                    out_paints = gst_videomixer2_mix_frames mix1\<rparr>
      in (outbuf, mix1\<lparr>sinkpads := map (\<lambda>pad. pad\<lparr>mixed_frame := None\<rparr>) (sinkpads mix1)\<rparr>))"

section \<open>The aggregate loop\<close>

text \<open>The two times of a tick, as \<^verbatim>\<open>gst_basemixer_aggregate\<close> computes them.\<close>

definition output_start_time :: "GstBasemixer \<Rightarrow> GstClockTime" where
  "output_start_time mix =
     (if seg_position (segment mix) = - 1 then seg_start (segment mix)
      else seg_position (segment mix))"

definition output_end_time :: "GstBasemixer \<Rightarrow> GstClockTime" where
  "output_end_time mix =
     (let t = ts_offset mix +
              gst_util_uint64_scale_round (nframes mix + 1)
                (GST_SECOND * of_int (fps_d (info mix))) (of_int (fps_n (info mix))) +
              seg_start (segment mix)
      in if seg_stop (segment mix) \<noteq> - 1 then min t (seg_stop (segment mix)) else t)"

text \<open>
  \<^verbatim>\<open>gst_basemixer_aggregate\<close> up to the call of the queue filler, for a negotiated
  mixer: the reconfiguration of the source pad, the caps and the pending tags. The
  mixer and what was sent out.
\<close>

definition aggregate_prepare :: "env \<Rightarrow> GstBasemixer \<Rightarrow> GstBasemixer \<times> emission list" where
  "aggregate_prepare e mix0 =
     (let mix1 = (if srcpad_reconfigure mix0
                  then snd (gst_basemixer_update_src_caps e (mix0\<lparr>srcpad_reconfigure := False\<rparr>))
                  else mix0);
          out1 = (if send_caps mix1 then [SetSrcCaps (current_caps mix1)] else []);
          mix2 = (if send_caps mix1 then mix1\<lparr>send_caps := False\<rparr> else mix1);
          out2 = (case pending_tags mix2 of None \<Rightarrow> [] | Some tags \<Rightarrow> [PushTagEvent tags])
      in (mix2\<lparr>pending_tags := None\<rparr>, out1 @ out2))"

text \<open>
  \<^verbatim>\<open>gst_basemixer_aggregate\<close> from the QoS check on, that is once the queue filler
  has answered 1: the flow return, the mixer and what was sent out.
\<close>

definition aggregate_emit ::
  "env \<Rightarrow> GstBasemixer \<Rightarrow> GstClockTime \<Rightarrow> GstClockTime \<Rightarrow>
   GstFlowReturn \<times> GstBasemixer \<times> emission list" where
  "aggregate_emit e mix os oe =
     (let jitter = gst_basemixer_do_qos (to_running_time e) mix os
      in if sint jitter \<le> 0 then
           (case gst_basemixer_blend_buffers e mix os oe of
              (outbuf, mix1) \<Rightarrow>
                (finish_buffer e outbuf,
                 mix1\<lparr>qos_processed := qos_processed mix1 + 1,
                      segment := (segment mix1)\<lparr>seg_position := oe\<rparr>,
                      nframes := nframes mix1 + 1\<rparr>,
                 [FinishBuffer outbuf]))
         else
           (let mix1 = mix\<lparr>qos_dropped := qos_dropped mix + 1\<rparr>;
                msg = \<lparr>qm_running_time = to_running_time e (segment mix1) os,
                       qm_stream_time = to_stream_time e (segment mix1) os,
                       qm_timestamp = os, qm_duration = oe - os,
                       qm_jitter = jitter, qm_proportion = proportion mix1,
                       qm_quality = 1000000,
                       qm_processed = qos_processed mix1,
                       qm_dropped = qos_dropped mix1\<rparr>
            in (GST_FLOW_OK,
                mix1\<lparr>segment := (segment mix1)\<lparr>seg_position := oe\<rparr>,
                     nframes := nframes mix1 + 1\<rparr>,
                [PostQosMessage msg])))"

text \<open>
  \<^verbatim>\<open>gst_basemixer_aggregate\<close>: the flow return, the mixer and what was sent out, in
  order; \<open>None\<close> when an assertion of the queue filler fails.
\<close>

definition gst_basemixer_aggregate ::
  "env \<Rightarrow> GstBasemixer \<Rightarrow> (GstFlowReturn \<times> GstBasemixer \<times> emission list) option" where
  "gst_basemixer_aggregate e mix0 =
     (if GST_VIDEO_INFO_FORMAT (info mix0) = UNKNOWN
      then Some (GST_FLOW_NOT_NEGOTIATED, mix0, [])
      else
        case aggregate_prepare e mix0 of
          (mix, out) \<Rightarrow>
            (case gst_basemixer_fill_queues e mix (output_start_time mix) (output_end_time mix) of
               None \<Rightarrow> None
             | Some (res, mix') \<Rightarrow>
                 if res = 0 then Some (GST_FLOW_OK, mix', out)
                 else if res = - 1 then Some (GST_FLOW_EOS, mix', out @ [PushEosEvent])
                 else if res = - 2 then Some (GST_FLOW_ERROR, mix', out)
                 else
                   (case aggregate_emit e mix' (output_start_time mix) (output_end_time mix) of
                      (ret, mix'', out') \<Rightarrow> Some (ret, mix'', out @ out'))))"

text \<open>
  The task of the source pad calls \<^verbatim>\<open>gst_basemixer_aggregate\<close> again and again:
  \<open>k\<close> ticks in a row with nothing in between, and all that was sent out.
\<close>

fun aggregate_ticks ::
  "env \<Rightarrow> nat \<Rightarrow> GstBasemixer \<Rightarrow> (GstBasemixer \<times> emission list) option" where
  "aggregate_ticks e 0 m = Some (m, [])"
| "aggregate_ticks e (Suc k) m =
     (case gst_basemixer_aggregate e m of
        None \<Rightarrow> None
      | Some (ret, m', out) \<Rightarrow>
          (case aggregate_ticks e k m' of
             None \<Rightarrow> None
           | Some (m'', outs) \<Rightarrow> Some (m'', out @ outs)))"

text \<open>
  Modelled from the spec: the segment operation \<^verbatim>\<open>to_running_time\<close>, which the spec
  lists among the contracts of the host framework. For a segment of positive rate the
  framework gives a position outside the segment no running time and otherwise adds
  the distance from the segment start, divided by the rate, to the base. The model
  takes the conversion from its parameter; this one serves the example states.
\<close>

definition gst_segment_to_running_time :: "GstSegment \<Rightarrow> 64 word \<Rightarrow> 64 word" where
  "gst_segment_to_running_time seg pos =
     (if pos = - 1 \<or> pos < seg_start seg \<or> (seg_stop seg \<noteq> - 1 \<and> seg_stop seg < pos)
      then - 1
      else (if \<bar>seg_rate seg\<bar> \<noteq> 1
            then of_int \<lfloor>of_nat (unat (pos - seg_start seg)) / \<bar>seg_rate seg\<bar>\<rfloor>
            else pos - seg_start seg) + seg_base seg)"

text \<open>\<^verbatim>\<open>gst_segment_to_stream_time\<close>, likewise, for an applied rate of 1.\<close>

definition gst_segment_to_stream_time :: "GstSegment \<Rightarrow> 64 word \<Rightarrow> 64 word" where
  "gst_segment_to_stream_time seg pos =
     (if pos = - 1 \<or> pos < seg_start seg \<or> (seg_stop seg \<noteq> - 1 \<and> seg_stop seg < pos)
      then - 1
      else pos - seg_start seg + seg_time seg)"

text \<open>
  A framework instance for concrete runs: the conversions above, no change of
  colorimetry, caps that always parse, no peer restriction, downstream accepting what
  \<open>acc\<close> accepts and fixating to \<open>fix\<close>, a converter for every pair of infos, and a
  downstream that takes every buffer.
\<close>

definition framework ::
  "(GstVideoFormat \<times> string \<times> string \<Rightarrow> bool) option \<Rightarrow> GstCaps \<Rightarrow> env" where
  "framework acc fix =
     \<lparr>to_running_time = gst_segment_to_running_time,
      to_stream_time = gst_segment_to_stream_time,
      set_default_colorimetry = (\<lambda>i. i),
      video_info_from_caps = Some,
      peer_query_caps = None,
      allowed_caps = acc,
      allowed_caps_fixated = fix,
      videoconvert_convert_new = (\<lambda>a b. Some (a, b)),
      finish_buffer = (\<lambda>b. GST_FLOW_OK)\<rparr>"


section \<open>Format election and converters\<close>

text \<open>The locals of the first loop of \<^verbatim>\<open>gst_basemixer_update_converters\<close>.\<close>

record election =
  need_alpha :: bool
  at_least_one_alpha :: bool
  formats_table :: "GstVideoFormat \<Rightarrow> int"
  best_format :: GstVideoFormat
  best_info :: GstVideoInfo
  best_format_number :: int

text \<open>
  The first loop: \<open>acc\<close> is the test against the downstream caps of the pad's caps
  with the size, framerate, PAR and interlace mode removed.
\<close>

fun update_converters_elect ::
  "(GstVideoFormat \<times> string \<times> string \<Rightarrow> bool) \<Rightarrow> GstBasemixerPad list \<Rightarrow> election \<Rightarrow> election" where
  "update_converters_elect acc [] s = s"
| "update_converters_elect acc (pad # tmp) s =
     (case finfo (pad_info pad) of
        None \<Rightarrow> update_converters_elect acc tmp s
      | Some fi \<Rightarrow>
          let s1 = (if fi_alpha fi then s\<lparr>at_least_one_alpha := True\<rparr> else s)
          in if need_alpha s1 \<and> \<not> fi_alpha fi then update_converters_elect acc tmp s1
             else if fi_format fi = UNKNOWN then update_converters_elect acc tmp s1
             else if \<not> acc (fi_format fi, colorimetry (pad_info pad), chroma_site (pad_info pad))
             then update_converters_elect acc tmp s1
             else
               let format_number = formats_table s1 (fi_format fi) + 1;
                   s2 = s1\<lparr>formats_table := (formats_table s1)(fi_format fi := format_number)\<rparr>
               in if \<not> need_alpha s2 \<and> fi_alpha fi
                  then update_converters_elect acc tmp
                         (s2\<lparr>need_alpha := True, best_format := fi_format fi,
                             best_info := pad_info pad, best_format_number := format_number\<rparr>)
                  else if best_format_number s2 < format_number
                  then update_converters_elect acc tmp
                         (s2\<lparr>best_format := fi_format fi, best_info := pad_info pad,
                             best_format_number := format_number\<rparr>)
                  else update_converters_elect acc tmp s2)"

definition election_init :: election where
  "election_init =
     \<lparr>need_alpha = False, at_least_one_alpha = False, formats_table = (\<lambda>f. 0),
      best_format = UNKNOWN, best_info = gst_video_info_init, best_format_number = 0\<rparr>"

text \<open>
  The second loop: the return value and the pads. It stops at the first pad for which
  no converter is found and leaves the pads after it as they were.
\<close>

fun update_converters_convert ::
  "env \<Rightarrow> GstVideoFormat \<Rightarrow> GstVideoInfo \<Rightarrow> GstBasemixerPad list \<Rightarrow> bool \<times> GstBasemixerPad list" where
  "update_converters_convert e bf bi [] = (True, [])"
| "update_converters_convert e bf bi (pad # tmp) =
     (if finfo (pad_info pad) = None \<or> GST_VIDEO_INFO_FORMAT (pad_info pad) = UNKNOWN
      then (case update_converters_convert e bf bi tmp of (r, l) \<Rightarrow> (r, pad # l))
      else if bf \<noteq> GST_VIDEO_INFO_FORMAT (pad_info pad) \<or>
              colorimetry (pad_info pad) \<noteq> colorimetry bi \<or>
              chroma_site (pad_info pad) \<noteq> chroma_site bi
      then
        (let pad1 = pad\<lparr>convert := videoconvert_convert_new e (pad_info pad) bi,
                        need_conversion_update := True\<rparr>
         in if convert pad1 = None then (False, pad1 # tmp)
            else (case update_converters_convert e bf bi tmp of (r, l) \<Rightarrow> (r, pad1 # l)))
      else (case update_converters_convert e bf bi tmp of
              (r, l) \<Rightarrow> (r, pad\<lparr>convert := None\<rparr> # l)))"

text \<open>
  \<^verbatim>\<open>gst_basemixer_update_converters\<close>: the return value, the mixer and the messages
  posted; \<open>None\<close> when \<^verbatim>\<open>best_info.finfo\<close> is dereferenced as \<^verbatim>\<open>NULL\<close>.
\<close>

definition gst_basemixer_update_converters ::
  "env \<Rightarrow> GstBasemixer \<Rightarrow> (bool \<times> GstBasemixer \<times> emission list) option" where
  "gst_basemixer_update_converters e mix =
     (case allowed_caps e of
        None \<Rightarrow> Some (False, mix, [])
      | Some acc \<Rightarrow>
          let s = update_converters_elect acc (sinkpads mix) election_init;
              bi = (if best_format s = UNKNOWN then allowed_caps_fixated e else best_info s);
              bf = (if best_format s = UNKNOWN then GST_VIDEO_INFO_FORMAT bi else best_format s)
          in case finfo bi of
               None \<Rightarrow> None
             | Some fi \<Rightarrow>
                 if at_least_one_alpha s \<and> \<not> fi_alpha fi
                 then Some (False, mix, [PostNegotiationError])
                 else
                   (case update_converters_convert e bf bi (sinkpads mix) of
                      (r, l) \<Rightarrow> Some (r, mix\<lparr>info := bi, sinkpads := l\<rparr>, [])))"

section \<open>Sink-side clipping\<close>




section \<open>Reset and state changes\<close>

text \<open>The body of the loop of \<^verbatim>\<open>gst_basemixer_reset\<close>.\<close>

definition reset_pad :: "GstBasemixerPad \<Rightarrow> GstBasemixerPad" where
  "reset_pad p =
     p\<lparr>pad_buffer := None, start_time := - 1, end_time := - 1,
       pad_info := gst_video_info_init\<rparr>"

text \<open>\<^verbatim>\<open>gst_basemixer_reset\<close>.\<close>

definition gst_basemixer_reset :: "GstBasemixer \<Rightarrow> GstBasemixer" where
  "gst_basemixer_reset mix =
     (let mix1 = mix\<lparr>info := gst_video_info_init, ts_offset := 0, nframes := 0,
                     segment := gst_segment_init\<lparr>seg_position := - 1\<rparr>\<rparr>;
          mix2 = gst_basemixer_reset_qos mix1
      in mix2\<lparr>sinkpads := map reset_pad (sinkpads mix2), newseg_pending := True\<rparr>)"

datatype GstStateChange =
    GST_STATE_CHANGE_NULL_TO_READY
  | GST_STATE_CHANGE_READY_TO_PAUSED
  | GST_STATE_CHANGE_PAUSED_TO_PLAYING
  | GST_STATE_CHANGE_PLAYING_TO_PAUSED
  | GST_STATE_CHANGE_PAUSED_TO_READY
  | GST_STATE_CHANGE_READY_TO_NULL

datatype GstStateChangeReturn =
    GST_STATE_CHANGE_FAILURE | GST_STATE_CHANGE_SUCCESS
  | GST_STATE_CHANGE_ASYNC | GST_STATE_CHANGE_NO_PREROLL

text \<open>
  \<^verbatim>\<open>gst_basemixer_change_state\<close>; \<open>parent\<close> is the \<^verbatim>\<open>change_state\<close> of the parent
  class.
\<close>

definition gst_basemixer_change_state ::
  "(GstStateChange \<Rightarrow> GstBasemixer \<Rightarrow> GstStateChangeReturn \<times> GstBasemixer) \<Rightarrow>
   GstStateChange \<Rightarrow> GstBasemixer \<Rightarrow> GstStateChangeReturn \<times> GstBasemixer" where
  "gst_basemixer_change_state parent transition mix =
     (let mix1 = (case transition of
                    GST_STATE_CHANGE_READY_TO_PAUSED \<Rightarrow>
                      mix\<lparr>send_stream_start := True, send_caps := True,
                          segment := gst_segment_init, current_caps := None\<rparr>
                  | _ \<Rightarrow> mix)
      in case parent transition mix1 of
           (ret, mix2) \<Rightarrow>
             (ret, case transition of
                     GST_STATE_CHANGE_PAUSED_TO_READY \<Rightarrow> gst_basemixer_reset mix2
                   | _ \<Rightarrow> mix2))"

section \<open>The pad list and the z-order\<close>

text \<open>
  \<^verbatim>\<open>pad_zorder_compare\<close>: the difference of two \<^verbatim>\<open>guint\<close>, returned as an
  \<^verbatim>\<open>int\<close>.
\<close>

definition pad_zorder_compare :: "GstBasemixerPad \<Rightarrow> GstBasemixerPad \<Rightarrow> int" where
  "pad_zorder_compare pad1 pad2 = sint (zorder pad1 - zorder pad2)"

text \<open>
  The list functions of the utility library, as it implements them:
  \<^verbatim>\<open>g_slist_insert_sorted\<close> puts the element before the first one it does not compare
  greater than; \<^verbatim>\<open>g_slist_sort\<close> is a merge sort that halves the list (the shorter
  half first) and, when merging, takes from the first list unless its head compares
  greater; \<^verbatim>\<open>g_slist_remove\<close> takes out the first occurrence. A pad object is
  identified by its name.
\<close>

fun g_slist_insert_sorted :: "'a list \<Rightarrow> 'a \<Rightarrow> ('a \<Rightarrow> 'a \<Rightarrow> int) \<Rightarrow> 'a list" where
  "g_slist_insert_sorted [] d cmp = [d]"
| "g_slist_insert_sorted (x # l) d cmp =
     (if 0 < cmp d x then x # g_slist_insert_sorted l d cmp else d # x # l)"

fun g_slist_sort_merge :: "'a list \<Rightarrow> 'a list \<Rightarrow> ('a \<Rightarrow> 'a \<Rightarrow> int) \<Rightarrow> 'a list" where
  "g_slist_sort_merge [] l2 cmp = l2"
| "g_slist_sort_merge l1 [] cmp = l1"
| "g_slist_sort_merge (x # l1) (y # l2) cmp =
     (if cmp x y \<le> 0 then x # g_slist_sort_merge l1 (y # l2) cmp
      else y # g_slist_sort_merge (x # l1) l2 cmp)"

fun g_slist_sort :: "'a list \<Rightarrow> ('a \<Rightarrow> 'a \<Rightarrow> int) \<Rightarrow> 'a list" where
  "g_slist_sort [] cmp = []"
| "g_slist_sort [x] cmp = [x]"
| "g_slist_sort (x # y # l) cmp =
     g_slist_sort_merge
       (g_slist_sort (take (length (x # y # l) div 2) (x # y # l)) cmp)
       (g_slist_sort (drop (length (x # y # l) div 2) (x # y # l)) cmp) cmp"

fun g_slist_remove :: "GstBasemixerPad list \<Rightarrow> string \<Rightarrow> GstBasemixerPad list" where
  "g_slist_remove [] n = []"
| "g_slist_remove (x # l) n = (if pad_name x = n then l else x # g_slist_remove l n)"

definition g_slist_find :: "GstBasemixerPad list \<Rightarrow> string \<Rightarrow> GstBasemixerPad option" where
  "g_slist_find l n = find (\<lambda>x. pad_name x = n) l"

text \<open>
  \<^verbatim>\<open>gst_basemixer_pad_set_property\<close> for \<^verbatim>\<open>PROP_PAD_ZORDER\<close> on the pad named
  \<open>n\<close>: the pad gets the value and the list is sorted again.
\<close>

definition gst_basemixer_pad_set_property :: "GstBasemixer \<Rightarrow> string \<Rightarrow> 32 word \<Rightarrow> GstBasemixer" where
  "gst_basemixer_pad_set_property mix n v =
     mix\<lparr>sinkpads :=
           g_slist_sort (map (\<lambda>pad. if pad_name pad = n then pad\<lparr>zorder := v\<rparr> else pad)
                           (sinkpads mix))
             pad_zorder_compare\<rparr>"

text \<open>
  \<^verbatim>\<open>gst_basemixer_request_new_pad\<close>; \<open>created\<close> is what the parent class returns, the
  new pad or \<^verbatim>\<open>NULL\<close>.
\<close>

definition gst_basemixer_request_new_pad ::
  "GstBasemixer \<Rightarrow> GstBasemixerPad option \<Rightarrow> GstBasemixer" where
  "gst_basemixer_request_new_pad mix created =
     (case created of
        None \<Rightarrow> mix
      | Some mixpad \<Rightarrow>
          mix\<lparr>sinkpads :=
                g_slist_insert_sorted (sinkpads mix)
                  (mixpad\<lparr>zorder := numpads mix, start_time := - 1, end_time := - 1\<rparr>)
                  pad_zorder_compare,
              numpads := numpads mix + 1\<rparr>)"

text \<open>
  \<^verbatim>\<open>gst_basemixer_release_pad\<close> of the pad named \<open>n\<close>; \<open>None\<close> when the converter
  update dereferences \<^verbatim>\<open>NULL\<close>.
\<close>

definition gst_basemixer_release_pad :: "env \<Rightarrow> GstBasemixer \<Rightarrow> string \<Rightarrow> GstBasemixer option" where
  "gst_basemixer_release_pad e mix n =
     (case g_slist_find (sinkpads mix) n of
        None \<Rightarrow> Some mix
      | Some mixpad \<Rightarrow>
          (case gst_basemixer_update_converters e
                  (mix\<lparr>sinkpads := g_slist_remove (sinkpads mix) n,
                       numpads := numpads mix - 1\<rparr>) of
             None \<Rightarrow> None
           | Some (r, mix1, out) \<Rightarrow>
               if GST_VIDEO_INFO_FORMAT (info mix1) \<noteq> UNKNOWN
               then Some (snd (gst_basemixer_update_src_caps e mix1))
               else Some mix1))"

section \<open>Objects and example states\<close>

text \<open>
  The object system hands out zero-filled instances. A pad object is one with
  \<^verbatim>\<open>gst_basemixer_pad_init\<close> and \<^verbatim>\<open>gst_videomixer2_pad_init\<close> applied, the mixer
  object one with \<^verbatim>\<open>gst_basemixer_init\<close> and \<^verbatim>\<open>gst_videomixer2_init\<close> applied.
\<close>

definition zero_info :: GstVideoInfo where
  "zero_info =
     \<lparr>finfo = None, width = 0, height = 0, fps_n = 0, fps_d = 0, par_n = 0, par_d = 0,
      interlace_mode = 0, colorimetry = [], chroma_site = []\<rparr>"

definition zero_segment :: GstSegment where
  "zero_segment =
     \<lparr>seg_rate = 0, seg_start = 0, seg_stop = 0, seg_time = 0, seg_base = 0, seg_position = 0\<rparr>"

definition pad_object :: "string \<Rightarrow> GstBasemixerPad" where
  "pad_object n =
     \<lparr>pad_name = n, bpad_buffer = None, bpad_segment = zero_segment, bpad_eos = False,
      pad_info = zero_info, zorder = 0, convert = None, need_conversion_update = False,
      conversion_info = zero_info, pad_buffer = None, buffer_vinfo = zero_info,
      queued = None, queued_vinfo = zero_info, start_time = 0, end_time = 0,
      mixed_frame = None, xpos = 0, ypos = 0, alpha = 1\<rparr>"

definition mixer_object :: GstBasemixer where
  "mixer_object =
     (gst_basemixer_reset
        \<lparr>segment = zero_segment, srcpad_reconfigure = False, info = zero_info,
         ts_offset = 0, nframes = 0, sinkpads = [], numpads = 0, current_caps = None,
         send_caps = False, send_stream_start = False, newseg_pending = False,
         pending_tags = None, proportion = 0, earliest_time = 0, qos_processed = 0,
         qos_dropped = 0, background = VIDEO_MIXER2_BACKGROUND_CHECKER\<rparr>)
       \<lparr>background := VIDEO_MIXER2_BACKGROUND_CHECKER\<rparr>"

text \<open>The info of caps of format \<open>f\<close>, size \<open>w\<close> by \<open>h\<close> and framerate \<open>n/d\<close>.\<close>

definition video_info :: "GstVideoFormat \<Rightarrow> int \<Rightarrow> int \<Rightarrow> int \<Rightarrow> int \<Rightarrow> GstVideoInfo" where
  "video_info f w h n d =
     gst_video_info_init\<lparr>finfo := Some (gst_video_format_get_info f), width := w,
                          height := h, fps_n := n, fps_d := d\<rparr>"

text \<open>
  A requested pad that has received a time segment, caps of info \<open>i\<close> and the buffer
  \<open>b\<close>, which is pending.
\<close>

definition fed_pad :: "string \<Rightarrow> GstVideoInfo \<Rightarrow> GstBuffer \<Rightarrow> GstBasemixerPad" where
  "fed_pad n i b =
     (pad_object n)\<lparr>bpad_segment := gst_segment_init, pad_info := i, bpad_buffer := Some b,
                    start_time := - 1, end_time := - 1\<rparr>"

text \<open>
  A mixer negotiated to 320 by 240 I420 at 10 frames per second, about to produce its
  first frame from one pad with a pending buffer of 100 ms; and the same mixer after
  a QoS observation that puts the earliest time 40 ms past the frame's start.
\<close>

definition ticking_mixer :: GstBasemixer where
  "ticking_mixer =
     mixer_object\<lparr>info := video_info I420 320 240 10 1,
                  sinkpads := [fed_pad ''sink_0'' (video_info I420 320 240 10 1)
                                 \<lparr>buf_timestamp = 0, buf_duration = 100000000\<rparr>],
                  numpads := 1\<rparr>"

definition late_mixer :: GstBasemixer where
  "late_mixer = ticking_mixer\<lparr>earliest_time := 40000000\<rparr>"

text \<open>The pads of both after the queue filler has run for the first frame.\<close>

definition ticking_pads :: "GstBasemixerPad list" where
  "ticking_pads =
     [(fed_pad ''sink_0'' (video_info I420 320 240 10 1)
         \<lparr>buf_timestamp = 0, buf_duration = 100000000\<rparr>)
        \<lparr>pad_buffer := Some \<lparr>buf_timestamp = 0, buf_duration = 100000000\<rparr>,
         buffer_vinfo := video_info I420 320 240 10 1,
         start_time := 0, end_time := 100000000\<rparr>]"




text \<open>
  A running mixer that has announced caps and holds, on its pad, a queued buffer whose
  end is not known yet.
\<close>

definition queued_mixer :: GstBasemixer where
  "queued_mixer =
     ticking_mixer\<lparr>current_caps := Some (video_info I420 320 240 10 1),
                   sinkpads := [(fed_pad ''sink_0'' (video_info I420 320 240 10 1)
                                   \<lparr>buf_timestamp = 0, buf_duration = - 1\<rparr>)
                                  \<lparr>queued := Some \<lparr>buf_timestamp = 0, buf_duration = - 1\<rparr>\<rparr>]\<rparr>"

text \<open>A parent class whose \<^verbatim>\<open>change_state\<close> succeeds and leaves the mixer alone.\<close>

definition plain_parent :: "GstStateChange \<Rightarrow> GstBasemixer \<Rightarrow> GstStateChangeReturn \<times> GstBasemixer" where
  "plain_parent transition mix = (GST_STATE_CHANGE_SUCCESS, mix)"

text \<open>
  Two pads with caps of 320 by 240 at 5 frames per second and of 100 by 100 at 10
  frames per second, both AYUV.
\<close>

definition two_pads :: "GstBasemixerPad list" where
  "two_pads =
     [(pad_object ''sink_0'')\<lparr>pad_info := video_info AYUV 320 240 5 1\<rparr>,
      (pad_object ''sink_1'')\<lparr>pad_info := video_info AYUV 100 100 10 1, zorder := 1\<rparr>]"

text \<open>
  A mixer with one pad whose caps are AYUV, and a downstream that accepts I420 only.
\<close>

definition alpha_mixer :: GstBasemixer where
  "alpha_mixer =
     mixer_object\<lparr>sinkpads := [(pad_object ''sink_0'')\<lparr>pad_info := video_info AYUV 320 240 25 1\<rparr>],
                  numpads := 1\<rparr>"

definition i420_downstream :: env where
  "i420_downstream =
     framework (Some (\<lambda>(f, c, s). f = I420)) (video_info I420 320 240 25 1)"

text \<open>A mixer with the two pads, at z-orders 0 and 1.\<close>

definition z_mixer :: GstBasemixer where
  "z_mixer = mixer_object\<lparr>sinkpads := two_pads, numpads := 2\<rparr>"

text \<open>
  The ticking mixer after \<open>n\<close> frames drawn from the same pending buffer, and the frame
  pushed at time \<open>t\<close>.
\<close>

definition ticking_mixer_at :: "64 word \<Rightarrow> GstBasemixer" where
  "ticking_mixer_at n =
     ticking_mixer\<lparr>sinkpads := ticking_pads, qos_processed := n, nframes := n,
                   segment := (segment ticking_mixer)\<lparr>seg_position := n * 100000000\<rparr>\<rparr>"

definition ticking_frame :: "GstClockTime \<Rightarrow> out_buffer" where
  "ticking_frame t =
     \<lparr>out_timestamp = t, out_duration = 100000000,
      out_paints = [FillChecker,
                    Composite False ''sink_0''
                      (video_info I420 320 240 10 1,
                       \<lparr>buf_timestamp = 0, buf_duration = 100000000\<rparr>) 0 0 1]\<rparr>"

text \<open>
  The same mixer after a seek that set the stop of the output segment to 100 ms, fed
  with a buffer of 200 ms; the mixer once its position has reached the stop, after
  \<open>n\<close> frames; and the frames it pushes.
\<close>

definition clamped_buffer :: GstBuffer where
  "clamped_buffer = \<lparr>buf_timestamp = 0, buf_duration = 200000000\<rparr>"

definition clamped_mixer :: GstBasemixer where
  "clamped_mixer =
     mixer_object\<lparr>info := video_info I420 320 240 10 1,
                  segment := gst_segment_init\<lparr>seg_stop := 100000000, seg_position := - 1\<rparr>,
                  sinkpads := [fed_pad ''sink_0'' (video_info I420 320 240 5 1) clamped_buffer],
                  numpads := 1\<rparr>"

definition clamped_pads :: "GstBasemixerPad list" where
  "clamped_pads =
     [(fed_pad ''sink_0'' (video_info I420 320 240 5 1) clamped_buffer)
        \<lparr>pad_buffer := Some clamped_buffer, buffer_vinfo := video_info I420 320 240 5 1,
         start_time := 0, end_time := 200000000\<rparr>]"

definition clamped_mixer_at :: "64 word \<Rightarrow> GstBasemixer" where
  "clamped_mixer_at n =
     clamped_mixer\<lparr>sinkpads := clamped_pads, qos_processed := n, nframes := n,
                   segment := (segment clamped_mixer)\<lparr>seg_position := 100000000\<rparr>\<rparr>"

definition clamped_frame :: "GstClockTime \<Rightarrow> GstClockTime \<Rightarrow> out_buffer" where
  "clamped_frame t d =
     \<lparr>out_timestamp = t, out_duration = d,
      out_paints = [FillChecker,
                    Composite False ''sink_0'' (video_info I420 320 240 5 1, clamped_buffer)
                      0 0 1]\<rparr>"

section \<open>Notions of the specification\<close>





text \<open>The framerate of a pad as the scan reads it.\<close>

definition pad_fps :: "GstBasemixerPad \<Rightarrow> gdouble" where
  "pad_fps p =
     (if fps_d (pad_info p) = 0 then 0
      else gst_util_fraction_to_double (fps_n (pad_info p)) (fps_d (pad_info p)))"

text \<open>The framerate locals are the initial ones or those of a contributing pad.\<close>

definition fps_from :: "best \<Rightarrow> best \<Rightarrow> GstBasemixerPad set \<Rightarrow> bool" where
  "fps_from b0 b S \<longleftrightarrow>
     (best_fps b = best_fps b0 \<and> best_fps_n b = best_fps_n b0 \<and> best_fps_d b = best_fps_d b0) \<or>
     (\<exists>p\<in>S. best_fps b = pad_fps p \<and> best_fps_n b = fps_n (pad_info p) \<and>
             best_fps_d b = fps_d (pad_info p))"

text \<open>An info whose format has an alpha channel.\<close>

definition has_alpha :: "GstVideoInfo \<Rightarrow> bool" where
  "has_alpha i = (case finfo i of None \<Rightarrow> False | Some fi \<Rightarrow> fi_alpha fi)"

text \<open>
  The info elected for the output by \<^verbatim>\<open>gst_basemixer_update_converters\<close>, when
  downstream allows any caps at all.
\<close>

definition elected_info :: "env \<Rightarrow> GstBasemixerPad list \<Rightarrow> GstVideoInfo option" where
  "elected_info e pads =
     (case allowed_caps e of
        None \<Rightarrow> None
      | Some acc \<Rightarrow>
          let s = update_converters_elect acc pads election_init
          in Some (if best_format s = UNKNOWN then allowed_caps_fixated e else best_info s))"

text \<open>A pad list sorted ascending by z-order.\<close>

definition zsorted :: "GstBasemixerPad list \<Rightarrow> bool" where
  "zsorted l = sorted (map zorder l)"

text \<open>The pads of a list that have a mixed frame, in list order.\<close>

definition composited :: "GstBasemixerPad list \<Rightarrow> GstBasemixerPad list" where
  "composited l = filter (\<lambda>p. mixed_frame p \<noteq> None) l"

text \<open>The pads named by the composite calls of a paint sequence, in order.\<close>

fun composite_names :: "paint list \<Rightarrow> string list" where
  "composite_names [] = []"
| "composite_names (Composite ov n f x y a # ps) = n # composite_names ps"
| "composite_names (p # ps) = composite_names ps"

text \<open>
  Z-orders below \<open>2^31\<close>, as are those the \<^verbatim>\<open>zorder\<close> property admits (0 to 10000)
  and those given to requested pads (the number of pads).
\<close>

definition zorders_in_range :: "GstBasemixerPad list \<Rightarrow> bool" where
  "zorders_in_range l = list_all (\<lambda>p. zorder p < 2147483648) l"

text \<open>The timestamps of the buffers pushed downstream, in order.\<close>

fun pushed_timestamps :: "emission list \<Rightarrow> GstClockTime list" where
  "pushed_timestamps [] = []"
| "pushed_timestamps (FinishBuffer b # out) = out_timestamp b # pushed_timestamps out"
| "pushed_timestamps (x # out) = pushed_timestamps out"

text \<open>
  The cadence of the output: numerator and denominator of the frame duration as the
  aggregate loop passes them to the scaling helper, the end of frame \<open>k\<close> before the
  clamp to the segment stop, and the clamp.
\<close>

definition frame_num :: "GstBasemixer \<Rightarrow> 64 word" where
  "frame_num mix = GST_SECOND * of_int (fps_d (info mix))"

definition frame_den :: "GstBasemixer \<Rightarrow> 64 word" where
  "frame_den mix = of_int (fps_n (info mix))"

definition cadence :: "GstBasemixer \<Rightarrow> 64 word \<Rightarrow> GstClockTime" where
  "cadence mix k =
     ts_offset mix + gst_util_uint64_scale_round k (frame_num mix) (frame_den mix) +
     seg_start (segment mix)"

definition clamp_stop :: "GstBasemixer \<Rightarrow> GstClockTime \<Rightarrow> GstClockTime" where
  "clamp_stop mix t =
     (if seg_stop (segment mix) \<noteq> - 1 then min t (seg_stop (segment mix)) else t)"

text \<open>
  The position is undefined or is the clamped end of the last frame counted; so it is
  after a reset, a flush and a seek, and after each tick.
\<close>

definition on_cadence :: "GstBasemixer \<Rightarrow> bool" where
  "on_cadence mix \<longleftrightarrow>
     seg_position (segment mix) = - 1 \<or>
     seg_position (segment mix) = clamp_stop mix (cadence mix (nframes mix))"

text \<open>
  The framerate numerator is not zero, the frame counter is not at its last value, the
  end of the next frame fits 64 bits without reaching the undefined sentinel, and the
  segment stop, when defined, is not before the segment start.
\<close>

definition no_overflow :: "GstBasemixer \<Rightarrow> bool" where
  "no_overflow mix \<longleftrightarrow>
     frame_den mix \<noteq> 0 \<and> nframes mix \<noteq> - 1 \<and>
     unat (ts_offset mix) +
       unat (gst_util_uint64_scale_round (nframes mix + 1) (frame_num mix) (frame_den mix)) +
       unat (seg_start (segment mix)) < 2 ^ 64 - 1 \<and>
     (seg_stop (segment mix) = - 1 \<or> seg_start (segment mix) \<le> seg_stop (segment mix))"

text \<open>
  The frame duration is at least one nanosecond, the scaling helper does not saturate
  for the next frame, and the start of the output frame lies before the segment stop.
\<close>

definition advancing :: "GstBasemixer \<Rightarrow> bool" where
  "advancing mix \<longleftrightarrow>
     unat (frame_den mix) \<le> unat (frame_num mix) \<and>
     (unat (nframes mix + 1) * unat (frame_num mix) + unat (frame_den mix) div 2)
        div unat (frame_den mix) < 2 ^ 64 \<and>
     (seg_stop (segment mix) = - 1 \<or> output_start_time mix < seg_stop (segment mix))"

text \<open>
  What a renegotiation may do to the cadence: nothing, or anchor it at the current
  position; the segment stays.
\<close>

definition reanchored :: "GstBasemixer \<Rightarrow> GstBasemixer \<Rightarrow> bool" where
  "reanchored m m' \<longleftrightarrow>
     segment m' = segment m \<and>
     (ts_offset m' = ts_offset m \<and> nframes m' = nframes m \<and>
      fps_n (info m') = fps_n (info m) \<and> fps_d (info m') = fps_d (info m) \<or>
      seg_position (segment m) = - 1 \<or>
      ts_offset m' = seg_position (segment m) - seg_start (segment m) \<and> nframes m' = 0)"

text \<open>
  A property of the mixer, as it stands after the first part of a tick, on each of
  \<open>k\<close> ticks in a row.
\<close>

fun ticks_satisfy :: "(GstBasemixer \<Rightarrow> bool) \<Rightarrow> env \<Rightarrow> nat \<Rightarrow> GstBasemixer \<Rightarrow> bool" where
  "ticks_satisfy P e 0 m = True"
| "ticks_satisfy P e (Suc k) m =
     (P (fst (aggregate_prepare e m)) \<and>
      (case gst_basemixer_aggregate e m of
         None \<Rightarrow> True
       | Some (ret, m', out) \<Rightarrow> ticks_satisfy P e k m'))"

section \<open>Evaluation of the example states\<close>

lemmas object_defs = mixer_object_def fed_pad_def video_info_def pad_object_def
  zero_info_def zero_segment_def gst_basemixer_reset_def gst_basemixer_reset_qos_def
  gst_basemixer_update_qos_def gst_segment_init_def gst_video_info_init_def
  gst_video_format_get_info_def framework_def GST_CLOCK_TIME_NONE_def

lemmas filler_defs = gst_basemixer_fill_queues_def fill_pad_def fill_timed_def Let_def
  gst_segment_to_running_time_def convert_to_output_rate_def

lemmas tick_time_defs = output_start_time_def output_end_time_def
  gst_util_uint64_scale_round_def GST_SECOND_def G_MAXUINT64_def Let_def

lemma ticking_prepare:
  "aggregate_prepare (framework None gst_video_info_init) ticking_mixer = (ticking_mixer, [])"
  by (simp add: aggregate_prepare_def ticking_mixer_def object_defs)

lemma ticking_times:
  "output_start_time ticking_mixer = 0" "output_end_time ticking_mixer = 100000000"
  by (simp_all add: tick_time_defs ticking_mixer_def object_defs)

lemma ticking_fill:
  "gst_basemixer_fill_queues (framework None gst_video_info_init) ticking_mixer 0 100000000 =
     Some (1, ticking_mixer\<lparr>sinkpads := ticking_pads\<rparr>)"
  by (simp add: filler_defs ticking_mixer_def ticking_pads_def object_defs)

lemma late_prepare:
  "aggregate_prepare (framework None gst_video_info_init) late_mixer = (late_mixer, [])"
  by (simp add: aggregate_prepare_def late_mixer_def ticking_mixer_def object_defs)

lemma late_times:
  "output_start_time late_mixer = 0" "output_end_time late_mixer = 100000000"
  by (simp_all add: tick_time_defs late_mixer_def ticking_mixer_def object_defs)

lemma late_fill:
  "gst_basemixer_fill_queues (framework None gst_video_info_init) late_mixer 0 100000000 =
     Some (1, late_mixer\<lparr>sinkpads := ticking_pads\<rparr>)"
  by (simp add: filler_defs late_mixer_def ticking_mixer_def ticking_pads_def object_defs)

lemma late_jitter:
  "gst_basemixer_do_qos gst_segment_to_running_time (late_mixer\<lparr>sinkpads := ticking_pads\<rparr>) 0
     = 40000000"
  by (simp add: gst_basemixer_do_qos_def GST_CLOCK_TIME_IS_VALID_def late_mixer_def
      ticking_mixer_def object_defs gst_segment_to_running_time_def)

section \<open>Fields that the stages of a tick leave alone\<close>

lemma reset_qos_fields:
  "segment (gst_basemixer_reset_qos m) = segment m"
  "earliest_time (gst_basemixer_reset_qos m) = GST_CLOCK_TIME_NONE"
  by (simp_all add: gst_basemixer_reset_qos_def gst_basemixer_update_qos_def)

lemma src_setcaps_segment:
  "segment (snd (gst_basemixer_src_setcaps e m c)) = segment m"
  by (simp add: gst_basemixer_src_setcaps_def Let_def reset_qos_fields split: option.splits)

lemma src_setcaps_earliest:
  "earliest_time m = GST_CLOCK_TIME_NONE \<Longrightarrow>
   earliest_time (snd (gst_basemixer_src_setcaps e m c)) = GST_CLOCK_TIME_NONE"
  by (simp add: gst_basemixer_src_setcaps_def Let_def reset_qos_fields split: option.splits)

lemma update_src_caps_segment:
  "segment (snd (gst_basemixer_update_src_caps e m)) = segment m"
  by (simp add: gst_basemixer_update_src_caps_def Let_def src_setcaps_segment
      split: option.splits prod.splits)

lemma update_src_caps_earliest:
  "earliest_time m = GST_CLOCK_TIME_NONE \<Longrightarrow>
   earliest_time (snd (gst_basemixer_update_src_caps e m)) = GST_CLOCK_TIME_NONE"
  by (simp add: gst_basemixer_update_src_caps_def Let_def src_setcaps_earliest
      split: option.splits prod.splits)

lemma prepare_segment:
  "segment (fst (aggregate_prepare e m)) = segment m"
  by (simp add: aggregate_prepare_def Let_def update_src_caps_segment)

lemma prepare_earliest:
  "earliest_time m = GST_CLOCK_TIME_NONE \<Longrightarrow>
   earliest_time (fst (aggregate_prepare e m)) = GST_CLOCK_TIME_NONE"
  by (simp add: aggregate_prepare_def Let_def update_src_caps_earliest)

lemma prepare_no_buffer:
  "FinishBuffer b \<notin> set (snd (aggregate_prepare e m))"
  by (simp add: aggregate_prepare_def Let_def split: option.splits)

lemma fill_queues_fields:
  assumes "gst_basemixer_fill_queues e m os oe = Some (r, m')"
  shows "segment m' = segment m" "earliest_time m' = earliest_time m"
    "qos_processed m' = qos_processed m" "qos_dropped m' = qos_dropped m"
    "nframes m' = nframes m" "proportion m' = proportion m"
  using assms by (auto simp: gst_basemixer_fill_queues_def split: option.splits)

lemma blend_fields:
  "segment (snd (gst_basemixer_blend_buffers e m os oe)) = segment m"
  "qos_processed (snd (gst_basemixer_blend_buffers e m os oe)) = qos_processed m"
  "qos_dropped (snd (gst_basemixer_blend_buffers e m os oe)) = qos_dropped m"
  "nframes (snd (gst_basemixer_blend_buffers e m os oe)) = nframes m"
  "out_timestamp (fst (gst_basemixer_blend_buffers e m os oe)) = os"
  "out_duration (fst (gst_basemixer_blend_buffers e m os oe)) = oe - os"
  by (simp_all add: gst_basemixer_blend_buffers_def Let_def)

lemma do_qos_no_observation:
  "earliest_time m = GST_CLOCK_TIME_NONE \<or> ts = GST_CLOCK_TIME_NONE \<Longrightarrow>
   gst_basemixer_do_qos rt m ts = - 1"
  by (auto simp: gst_basemixer_do_qos_def GST_CLOCK_TIME_IS_VALID_def)

lemma aggregate_ok:
  assumes "GST_VIDEO_INFO_FORMAT (info mix0) \<noteq> UNKNOWN"
    and "aggregate_prepare e mix0 = (mix, out)"
    and "gst_basemixer_fill_queues e mix (output_start_time mix) (output_end_time mix) = Some (1, mix')"
  shows "gst_basemixer_aggregate e mix0 =
     (case aggregate_emit e mix' (output_start_time mix) (output_end_time mix) of
        (ret, mix'', out') \<Rightarrow> Some (ret, mix'', out @ out'))"
  using assms by (simp add: gst_basemixer_aggregate_def)

section \<open>Theorems: quality of service\<close>

text \<open>
  C6. On a downstream QoS event carrying timestamp \<open>t\<close>, proportion \<open>p\<close> and diff
  \<open>d\<close>, the mixer stores \<open>p\<close> as its proportion and sets the earliest time to
  \<open>t + d\<close>, plus \<open>d\<close> and one output frame duration (\<^verbatim>\<open>GST_SECOND * fps_d / fps_n\<close>,
  rounded) when \<open>d\<close> is positive; an undefined \<open>t\<close> makes the earliest time undefined.
\<close>

theorem update_qos_event:
  "proportion (gst_basemixer_update_qos p d t mix) = p \<and>
   earliest_time (gst_basemixer_update_qos p d t mix) =
     (if t = GST_CLOCK_TIME_NONE then GST_CLOCK_TIME_NONE
      else t + d + (if 0 < sint d
                    then d + gst_util_uint64_scale_int_round GST_SECOND
                               (fps_d (info mix)) (fps_n (info mix))
                    else 0))"
  by (simp add: gst_basemixer_update_qos_def)

text \<open>
  C10. On an aggregate tick of a negotiated mixer for which the queue filler answers
  OK, if no QoS observation has arrived yet (the earliest time is undefined) or the
  start of the output frame is undefined, the QoS check reports a non-positive
  jitter, the frame is blended and pushed, \<open>qos_processed\<close> is incremented and
  \<open>qos_dropped\<close> is not.
\<close>

theorem qos_no_observation_processes:
  assumes fmt: "GST_VIDEO_INFO_FORMAT (info mix0) \<noteq> UNKNOWN"
    and none: "earliest_time mix0 = GST_CLOCK_TIME_NONE \<or>
               output_start_time mix0 = GST_CLOCK_TIME_NONE"
    and prep: "aggregate_prepare e mix0 = (mix, out)"
    and fill: "gst_basemixer_fill_queues e mix (output_start_time mix) (output_end_time mix)
               = Some (1, mix')"
  shows "sint (gst_basemixer_do_qos (to_running_time e) mix' (output_start_time mix)) \<le> 0 \<and>
    (\<exists>ret mix'' outbuf.
       gst_basemixer_aggregate e mix0 = Some (ret, mix'', out @ [FinishBuffer outbuf]) \<and>
       out_timestamp outbuf = output_start_time mix \<and>
       qos_processed mix'' = qos_processed mix' + 1 \<and>
       qos_dropped mix'' = qos_dropped mix')"
proof -
  have seg: "segment mix = segment mix0" and e0: "earliest_time mix0 = GST_CLOCK_TIME_NONE \<Longrightarrow> earliest_time mix = GST_CLOCK_TIME_NONE"
    using prepare_segment [of e mix0] prepare_earliest [of mix0 e] prep by simp_all
  have os: "output_start_time mix = output_start_time mix0"
    by (simp add: output_start_time_def seg)
  have "earliest_time mix' = GST_CLOCK_TIME_NONE \<or> output_start_time mix = GST_CLOCK_TIME_NONE"
    using none e0 os fill_queues_fields(2) [OF fill] by auto
  then have j: "gst_basemixer_do_qos (to_running_time e) mix' (output_start_time mix) = - 1"
    by (rule do_qos_no_observation)
  obtain outbuf m5 where bb: "gst_basemixer_blend_buffers e mix' (output_start_time mix) (output_end_time mix) = (outbuf, m5)"
    by (cases "gst_basemixer_blend_buffers e mix' (output_start_time mix) (output_end_time mix)")
  have em: "aggregate_emit e mix' (output_start_time mix) (output_end_time mix) =
     (finish_buffer e outbuf,
      m5\<lparr>qos_processed := qos_processed m5 + 1,
         segment := (segment m5)\<lparr>seg_position := output_end_time mix\<rparr>,
         nframes := nframes m5 + 1\<rparr>, [FinishBuffer outbuf])"
    by (simp add: aggregate_emit_def j bb)
  have f: "qos_processed m5 = qos_processed mix'" "qos_dropped m5 = qos_dropped mix'"
     "out_timestamp outbuf = output_start_time mix"
    using blend_fields(2,3,5) [of e mix' "output_start_time mix" "output_end_time mix"] bb by simp_all
  show ?thesis
    using aggregate_ok [OF fmt prep fill] em f j by simp
qed

theorem qos_no_observation_processes_witness:
  "GST_VIDEO_INFO_FORMAT (info ticking_mixer) \<noteq> UNKNOWN \<and>
   earliest_time ticking_mixer = GST_CLOCK_TIME_NONE \<and>
   sint (gst_basemixer_do_qos gst_segment_to_running_time
           (ticking_mixer\<lparr>sinkpads := ticking_pads\<rparr>) 0) \<le> 0 \<and>
   (\<exists>ret mix'' outbuf.
      gst_basemixer_aggregate (framework None gst_video_info_init) ticking_mixer =
        Some (ret, mix'', [FinishBuffer outbuf]) \<and>
      out_timestamp outbuf = 0 \<and>
      qos_processed mix'' = 1 \<and> qos_dropped mix'' = 0)"
proof -
  have fmt: "GST_VIDEO_INFO_FORMAT (info ticking_mixer) \<noteq> UNKNOWN"
    by (simp add: GST_VIDEO_INFO_FORMAT_def ticking_mixer_def object_defs)
  have none: "earliest_time ticking_mixer = GST_CLOCK_TIME_NONE"
    by (simp add: ticking_mixer_def object_defs)
  have fill: "gst_basemixer_fill_queues (framework None gst_video_info_init) ticking_mixer
                (output_start_time ticking_mixer) (output_end_time ticking_mixer)
              = Some (1, ticking_mixer\<lparr>sinkpads := ticking_pads\<rparr>)"
    by (simp add: ticking_times ticking_fill)
  have q: "qos_processed ticking_mixer = 0" "qos_dropped ticking_mixer = 0"
    by (simp_all add: ticking_mixer_def object_defs)
  show ?thesis
    using qos_no_observation_processes [OF fmt disjI1 [OF none] ticking_prepare fill]
      fmt none q
    by (simp add: ticking_times framework_def)
qed


text \<open>
  C3. On an aggregate tick of a negotiated mixer for which the queue filler answers OK
  and the QoS check yields a positive jitter, the jitter is the earliest time minus
  the running time of the frame's start, no buffer is pushed, \<open>qos_dropped\<close> is
  incremented, a QoS message with the jitter, the proportion and the two counters is
  posted, the position still advances to the end of the frame and \<open>nframes\<close> is
  incremented.
\<close>

theorem qos_late_frame_dropped:
  assumes fmt: "GST_VIDEO_INFO_FORMAT (info mix0) \<noteq> UNKNOWN"
    and prep: "aggregate_prepare e mix0 = (mix, out)"
    and fill: "gst_basemixer_fill_queues e mix (output_start_time mix) (output_end_time mix)
               = Some (1, mix')"
    and late: "0 < sint (gst_basemixer_do_qos (to_running_time e) mix' (output_start_time mix))"
  shows "\<exists>msg outs.
       gst_basemixer_aggregate e mix0 =
         Some (GST_FLOW_OK,
               mix'\<lparr>qos_dropped := qos_dropped mix' + 1,
                    segment := (segment mix')\<lparr>seg_position := output_end_time mix\<rparr>,
                    nframes := nframes mix' + 1\<rparr>, outs) \<and>
       outs = out @ [PostQosMessage msg] \<and>
       (\<forall>b. FinishBuffer b \<notin> set outs) \<and>
       qm_jitter msg = earliest_time mix' -
                        to_running_time e (segment mix') (output_start_time mix) \<and>
       qm_proportion msg = proportion mix' \<and>
       qm_processed msg = qos_processed mix' \<and>
       qm_dropped msg = qos_dropped mix' + 1"
proof -
  let ?os = "output_start_time mix"
  have j: "gst_basemixer_do_qos (to_running_time e) mix' ?os =
           earliest_time mix' - to_running_time e (segment mix') ?os"
    using late by (auto simp: gst_basemixer_do_qos_def split: if_splits)
  have nb: "\<And>b. FinishBuffer b \<notin> set out"
    using prepare_no_buffer [of _ e mix0] prep by simp
  show ?thesis
    using aggregate_ok [OF fmt prep fill] late nb
    by (simp add: aggregate_emit_def Let_def j [symmetric])
qed

theorem qos_late_frame_dropped_witness:
  "GST_VIDEO_INFO_FORMAT (info late_mixer) \<noteq> UNKNOWN \<and>
   0 < sint (gst_basemixer_do_qos gst_segment_to_running_time
               (late_mixer\<lparr>sinkpads := ticking_pads\<rparr>) 0) \<and>
   (\<exists>msg.
      gst_basemixer_aggregate (framework None gst_video_info_init) late_mixer =
        Some (GST_FLOW_OK,
              late_mixer\<lparr>sinkpads := ticking_pads, qos_dropped := 1,
                         segment := (segment late_mixer)\<lparr>seg_position := 100000000\<rparr>,
                         nframes := 1\<rparr>,
              [PostQosMessage msg]) \<and>
      qm_jitter msg = 40000000 \<and> qm_processed msg = 0 \<and> qm_dropped msg = 1)"
proof -
  have fmt: "GST_VIDEO_INFO_FORMAT (info late_mixer) \<noteq> UNKNOWN"
    by (simp add: GST_VIDEO_INFO_FORMAT_def late_mixer_def ticking_mixer_def object_defs)
  have fill: "gst_basemixer_fill_queues (framework None gst_video_info_init) late_mixer
                (output_start_time late_mixer) (output_end_time late_mixer)
              = Some (1, late_mixer\<lparr>sinkpads := ticking_pads\<rparr>)"
    by (simp add: late_times late_fill)
  have late: "0 < sint (gst_basemixer_do_qos
                 (to_running_time (framework None gst_video_info_init))
                 (late_mixer\<lparr>sinkpads := ticking_pads\<rparr>) (output_start_time late_mixer))"
    by (simp add: late_times late_jitter framework_def)
  have q: "qos_processed late_mixer = 0" "qos_dropped late_mixer = 0" "nframes late_mixer = 0"
    "earliest_time late_mixer = 40000000"
    "gst_segment_to_running_time (segment late_mixer) 0 = 0"
    by (simp_all add: late_mixer_def ticking_mixer_def object_defs gst_segment_to_running_time_def)
  show ?thesis
    using qos_late_frame_dropped [OF fmt late_prepare fill late] fmt late q
    by (auto simp add: late_times framework_def late_jitter)
qed

section \<open>Theorems: rate scaling\<close>













section \<open>Theorems: sink-side clipping\<close>







section \<open>Theorems: reset\<close>

lemma reset_fields:
  "info (gst_basemixer_reset m) = gst_video_info_init"
  "ts_offset (gst_basemixer_reset m) = 0"
  "nframes (gst_basemixer_reset m) = 0"
  "segment (gst_basemixer_reset m) = gst_segment_init\<lparr>seg_position := - 1\<rparr>"
  "proportion (gst_basemixer_reset m) = 1 / 2"
  "earliest_time (gst_basemixer_reset m) = GST_CLOCK_TIME_NONE"
  "qos_processed (gst_basemixer_reset m) = 0"
  "qos_dropped (gst_basemixer_reset m) = 0"
  "newseg_pending (gst_basemixer_reset m)"
  "sinkpads (gst_basemixer_reset m) = map reset_pad (sinkpads m)"
  "current_caps (gst_basemixer_reset m) = current_caps m"
  by (simp_all add: gst_basemixer_reset_def gst_basemixer_reset_qos_def
      gst_basemixer_update_qos_def Let_def)

lemma reset_pad_fields:
  "pad_buffer (reset_pad p) = None" "start_time (reset_pad p) = - 1"
  "end_time (reset_pad p) = - 1" "pad_info (reset_pad p) = gst_video_info_init"
  "queued (reset_pad p) = queued p"
  by (simp_all add: reset_pad_def)

lemma change_state_to_ready:
  "gst_basemixer_change_state parent GST_STATE_CHANGE_PAUSED_TO_READY mix =
     (fst (parent GST_STATE_CHANGE_PAUSED_TO_READY mix),
      gst_basemixer_reset (snd (parent GST_STATE_CHANGE_PAUSED_TO_READY mix)))"
  by (simp add: gst_basemixer_change_state_def split: prod.splits)

text \<open>
  C8, as the specification states it, fails: after the transition from PAUSED to READY
  the mixer still holds its current caps and the pad still holds its queued buffer.
\<close>

theorem change_state_keeps_caps_and_queued_counterexample:
  "current_caps
     (snd (gst_basemixer_change_state plain_parent GST_STATE_CHANGE_PAUSED_TO_READY queued_mixer))
     = Some (video_info I420 320 240 10 1) \<and>
   map queued
     (sinkpads
        (snd (gst_basemixer_change_state plain_parent GST_STATE_CHANGE_PAUSED_TO_READY
                queued_mixer)))
     = [Some \<lparr>buf_timestamp = 0, buf_duration = - 1\<rparr>]"
  by (simp add: change_state_to_ready plain_parent_def reset_fields reset_pad_fields
      queued_mixer_def)

text \<open>
  C8, amended. The state transition from PAUSED to READY runs, after the parent class,
  a full reset whose postcondition is: the output info is reinitialized to unknown,
  \<open>ts_offset\<close> and \<open>nframes\<close> are zero, the output segment is reinitialized with
  its position undefined, QoS is reset (proportion 0.5, no earliest time, counters
  zero), a new segment is pending, and every pad has its current buffer freed, its
  start and end time undefined and its info reinitialized. The reset leaves the
  current caps and the queued buffers of the pads as they are; the current caps are
  cleared by the transition from READY to PAUSED, before the parent class runs.
\<close>

theorem change_state_to_ready_resets:
  "(gst_basemixer_change_state parent GST_STATE_CHANGE_PAUSED_TO_READY mix = (ret, mix') \<longrightarrow>
      info mix' = gst_video_info_init \<and>
      GST_VIDEO_INFO_FORMAT (info mix') = UNKNOWN \<and>
      ts_offset mix' = 0 \<and> nframes mix' = 0 \<and>
      segment mix' = gst_segment_init\<lparr>seg_position := - 1\<rparr> \<and>
      proportion mix' = 1 / 2 \<and> earliest_time mix' = GST_CLOCK_TIME_NONE \<and>
      qos_processed mix' = 0 \<and> qos_dropped mix' = 0 \<and> newseg_pending mix' \<and>
      (\<forall>p \<in> set (sinkpads mix').
         pad_buffer p = None \<and> start_time p = - 1 \<and> end_time p = - 1 \<and>
         pad_info p = gst_video_info_init)) \<and>
   current_caps (gst_basemixer_reset mix) = current_caps mix \<and>
   map queued (sinkpads (gst_basemixer_reset mix)) = map queued (sinkpads mix) \<and>
   gst_basemixer_change_state parent GST_STATE_CHANGE_READY_TO_PAUSED mix =
     parent GST_STATE_CHANGE_READY_TO_PAUSED
       (mix\<lparr>send_stream_start := True, send_caps := True, segment := gst_segment_init,
            current_caps := None\<rparr>)"
proof -
  have "GST_VIDEO_INFO_FORMAT gst_video_info_init = UNKNOWN"
    by (simp add: GST_VIDEO_INFO_FORMAT_def gst_video_info_init_def
        gst_video_format_get_info_def)
  moreover have "gst_basemixer_change_state parent GST_STATE_CHANGE_READY_TO_PAUSED mix =
     parent GST_STATE_CHANGE_READY_TO_PAUSED
       (mix\<lparr>send_stream_start := True, send_caps := True, segment := gst_segment_init,
            current_caps := None\<rparr>)"
    by (simp add: gst_basemixer_change_state_def split: prod.splits)
  ultimately show ?thesis
    by (auto simp: change_state_to_ready reset_fields reset_pad_fields)
qed

theorem change_state_to_ready_resets_witness:
  "info (snd (gst_basemixer_change_state plain_parent GST_STATE_CHANGE_PAUSED_TO_READY
                queued_mixer)) = gst_video_info_init \<and>
   map start_time
     (sinkpads (snd (gst_basemixer_change_state plain_parent GST_STATE_CHANGE_PAUSED_TO_READY
                       queued_mixer))) = [- 1] \<and>
   map pad_buffer
     (sinkpads (snd (gst_basemixer_change_state plain_parent GST_STATE_CHANGE_PAUSED_TO_READY
                       queued_mixer))) = [None]"
proof -
  obtain ret mix' where c: "gst_basemixer_change_state plain_parent
      GST_STATE_CHANGE_PAUSED_TO_READY queued_mixer = (ret, mix')"
    by (cases "gst_basemixer_change_state plain_parent GST_STATE_CHANGE_PAUSED_TO_READY
                 queued_mixer")
  have l: "length (sinkpads mix') = 1"
    using c by (auto simp add: change_state_to_ready plain_parent_def reset_fields queued_mixer_def)
  then obtain p where p: "sinkpads mix' = [p]"
    by (cases "sinkpads mix'") auto
  show ?thesis
    using change_state_to_ready_resets [of plain_parent queued_mixer ret mix'] c p
    by simp
qed

section \<open>Theorems: output caps\<close>





lemma fps_from_mono: "fps_from b0 b S \<Longrightarrow> S \<subseteq> T \<Longrightarrow> fps_from b0 b T"
  by (auto simp: fps_from_def)






section \<open>Theorems: format election\<close>

lemma elect_alpha:
  "at_least_one_alpha (update_converters_elect acc pads s) =
     (at_least_one_alpha s \<or> (\<exists>p\<in>set pads. has_alpha (pad_info p)))"
proof (induction pads arbitrary: s)
  case Nil
  then show ?case by simp
next
  case (Cons p pads)
  show ?case
  proof (cases "finfo (pad_info p)")
    case None
    then show ?thesis by (simp add: Cons.IH has_alpha_def)
  next
    case (Some fi)
    then show ?thesis
      by (simp add: Cons.IH has_alpha_def Let_def)
  qed
qed

text \<open>
  C5. If a pad's declared format has an alpha channel and the format elected for the
  output has none, \<^verbatim>\<open>gst_basemixer_update_converters\<close> posts a negotiation error and
  returns failure, leaving the mixer as it was; so it does for an AYUV input when
  downstream accepts I420 only.
\<close>

theorem alpha_input_without_alpha_output_fails:
  assumes "p \<in> set (sinkpads mix)" and "has_alpha (pad_info p)"
    and "elected_info e (sinkpads mix) = Some bi" and "finfo bi \<noteq> None" and "\<not> has_alpha bi"
  shows "gst_basemixer_update_converters e mix = Some (False, mix, [PostNegotiationError])"
proof -
  from assms(3) obtain acc where acc: "allowed_caps e = Some acc"
    by (auto simp: elected_info_def split: option.splits)
  let ?s = "update_converters_elect acc (sinkpads mix) election_init"
  have bi: "bi = (if best_format ?s = UNKNOWN then allowed_caps_fixated e else best_info ?s)"
    using assms(3) acc by (simp add: elected_info_def Let_def)
  have a: "at_least_one_alpha ?s"
    using assms(1,2) by (auto simp: elect_alpha)
  from assms(4) obtain fi where fi: "finfo bi = Some fi" by auto
  with assms(5) have na: "\<not> fi_alpha fi" by (simp add: has_alpha_def)
  show ?thesis
    using acc a fi na bi by (simp add: gst_basemixer_update_converters_def Let_def)
qed

theorem alpha_input_without_alpha_output_fails_witness:
  "elected_info i420_downstream (sinkpads alpha_mixer) = Some (video_info I420 320 240 25 1) \<and>
   gst_basemixer_update_converters i420_downstream alpha_mixer =
     Some (False, alpha_mixer, [PostNegotiationError])"
proof -
  let ?p = "(pad_object ''sink_0'')\<lparr>pad_info := video_info AYUV 320 240 25 1\<rparr>"
  have p: "?p \<in> set (sinkpads alpha_mixer)"
    by (simp add: alpha_mixer_def)
  have a: "has_alpha (pad_info ?p)"
    by (simp add: has_alpha_def video_info_def gst_video_format_get_info_def)
  have el: "elected_info i420_downstream (sinkpads alpha_mixer) =
              Some (video_info I420 320 240 25 1)"
    by (simp add: elected_info_def i420_downstream_def framework_def alpha_mixer_def
        election_init_def video_info_def gst_video_format_get_info_def Let_def)
  have n: "finfo (video_info I420 320 240 25 1) \<noteq> None"
    "\<not> has_alpha (video_info I420 320 240 25 1)"
    by (simp_all add: has_alpha_def video_info_def gst_video_format_get_info_def)
  show ?thesis
    using alpha_input_without_alpha_output_fails [OF p a el n] el by simp
qed

section \<open>Theorems: z-order\<close>

lemma sint_diff_small:
  fixes x y :: "32 word"
  assumes "x < 2147483648" "y < 2147483648"
  shows "sint (x - y) = uint x - uint y"
proof -
  have x: "uint x < 2147483648" and y: "uint y < 2147483648"
    using assms by (simp_all add: word_less_def)
  have "sint (x - y) = signed_take_bit 31 (uint x - uint y)"
    by (simp add: sint_uint uint_word_ariths signed_take_bit_eq_iff_take_bit_eq take_bit_eq_mod)
  also have "\<dots> = uint x - uint y"
  proof -
    have "0 \<le> uint x" "0 \<le> uint y" by simp_all
    with x y have "- 2147483648 \<le> uint x - uint y \<and> uint x - uint y < 2147483648"
      by linarith
    then have "- (2 ^ 31) \<le> uint x - uint y" "uint x - uint y < 2 ^ 31" by simp_all
    then show ?thesis by (rule signed_take_bit_int_eq_self)
  qed
  finally show ?thesis .
qed

lemma compare_le:
  assumes "zorder a < 2147483648" "zorder b < 2147483648"
  shows "pad_zorder_compare a b \<le> 0 \<longleftrightarrow> zorder a \<le> zorder b"
    and "0 < pad_zorder_compare a b \<longleftrightarrow> zorder b < zorder a"
  using assms by (auto simp: pad_zorder_compare_def sint_diff_small word_le_def word_less_def)


lemma merge_set:
  "set (g_slist_sort_merge l1 l2 cmp) = set l1 \<union> set l2"
  by (induction l1 l2 cmp rule: g_slist_sort_merge.induct) auto

lemma sort_set: "set (g_slist_sort l cmp) = set l"
proof (induction l cmp rule: g_slist_sort.induct)
  case (3 x y l cmp)
  have "set (take (length (x # y # l) div 2) (x # y # l)) \<union>
        set (drop (length (x # y # l) div 2) (x # y # l)) = set (x # y # l)"
    by (metis append_take_drop_id set_append)
  with 3 show ?case by (simp only: g_slist_sort.simps merge_set)
qed simp_all

lemma merge_sorted:
  assumes "\<forall>a\<in>set l1 \<union> set l2. \<forall>b\<in>set l1 \<union> set l2. (cmp a b \<le> 0) = (key a \<le> key b)"
    and "sorted (map key l1)" "sorted (map key l2)"
  shows "sorted (map (key :: 'a \<Rightarrow> 'b::linorder) (g_slist_sort_merge l1 l2 cmp))"
  using assms
proof (induction l1 l2 cmp rule: g_slist_sort_merge.induct)
  case (3 x l1 y l2 cmp)
  show ?case
  proof (cases "cmp x y \<le> 0")
    case True
    with 3 have "key x \<le> key y" by simp
    moreover from True 3 have "sorted (map key (g_slist_sort_merge l1 (y # l2) cmp))" by auto
    ultimately show ?thesis using True 3(4,5) by (auto simp: merge_set)
  next
    case False
    with 3 have "key y \<le> key x" by auto
    moreover from False 3 have "sorted (map key (g_slist_sort_merge (x # l1) l2 cmp))" by auto
    ultimately show ?thesis using False 3(4,5) by (auto simp: merge_set)
  qed
qed simp_all

lemma sort_sorted:
  assumes "\<forall>a\<in>set l. \<forall>b\<in>set l. (cmp a b \<le> 0) = (key a \<le> key b)"
  shows "sorted (map (key :: 'a \<Rightarrow> 'b::linorder) (g_slist_sort l cmp))"
  using assms
proof (induction l cmp rule: g_slist_sort.induct)
  case (3 x y l cmp)
  let ?l = "x # y # l"
  let ?a = "take (length ?l div 2) ?l" and ?b = "drop (length ?l div 2) ?l"
  have sub: "set ?a \<subseteq> set ?l" "set ?b \<subseteq> set ?l"
    by (rule set_take_subset, rule set_drop_subset)
  have a: "sorted (map key (g_slist_sort ?a cmp))"
    using 3(1) 3(3) sub(1) by (meson subsetD)
  have b: "sorted (map key (g_slist_sort ?b cmp))"
    using 3(2) 3(3) sub(2) by (meson subsetD)
  have "sorted (map key (g_slist_sort_merge (g_slist_sort ?a cmp) (g_slist_sort ?b cmp) cmp))"
  proof (rule merge_sorted [OF _ a b])
    show "\<forall>a\<in>set (g_slist_sort ?a cmp) \<union> set (g_slist_sort ?b cmp).
            \<forall>b\<in>set (g_slist_sort ?a cmp) \<union> set (g_slist_sort ?b cmp).
              (cmp a b \<le> 0) = (key a \<le> key b)"
      using 3(3) sub unfolding sort_set by (meson UnE subsetD)
  qed
  then show ?case by (simp only: g_slist_sort.simps)
qed simp_all

lemma insert_sorted_set:
  "set (g_slist_insert_sorted l d cmp) = insert d (set l)"
  by (induction l) auto

lemma insert_sorted_sorted:
  assumes "\<forall>b\<in>set l. (0 < cmp d b) = (key b < key d)" and "sorted (map key l)"
  shows "sorted (map (key :: 'a \<Rightarrow> 'b::linorder) (g_slist_insert_sorted l d cmp))"
  using assms
proof (induction l)
  case (Cons x l)
  show ?case
  proof (cases "0 < cmp d x")
    case True
    with Cons show ?thesis by (auto simp: insert_sorted_set)
  next
    case False
    with Cons.prems have "key d \<le> key x" by auto
    with False Cons.prems show ?thesis by auto
  qed
qed simp

lemma remove_sorted:
  "sorted (map zorder l) \<Longrightarrow> sorted (map zorder (g_slist_remove l n))"
proof (induction l)
  case (Cons x l)
  have "set (g_slist_remove l n) \<subseteq> set l" for l
    by (induction l) auto
  with Cons show ?case by (auto simp: subset_iff)
qed simp


lemma in_range_compare:
  assumes "zorders_in_range l"
  shows "\<forall>a\<in>set l. \<forall>b\<in>set l. (pad_zorder_compare a b \<le> 0) = (zorder a \<le> zorder b)"
    and "\<forall>a\<in>set l. \<forall>b\<in>set l. (0 < pad_zorder_compare a b) = (zorder b < zorder a)"
  using assms by (auto simp: zorders_in_range_def list_all_iff compare_le)

lemma set_property_sorted:
  assumes "zorders_in_range (sinkpads mix)" and "v < 2147483648"
  shows "zsorted (sinkpads (gst_basemixer_pad_set_property mix n v))"
proof -
  let ?l = "map (\<lambda>pad. if pad_name pad = n then pad\<lparr>zorder := v\<rparr> else pad) (sinkpads mix)"
  have "zorders_in_range ?l"
    using assms by (auto simp: zorders_in_range_def list_all_iff)
  then have "\<forall>a\<in>set ?l. \<forall>b\<in>set ?l. (pad_zorder_compare a b \<le> 0) = (zorder a \<le> zorder b)"
    by (rule in_range_compare(1))
  then have "sorted (map zorder (g_slist_sort ?l pad_zorder_compare))"
    by (rule sort_sorted)
  then show ?thesis by (simp add: zsorted_def gst_basemixer_pad_set_property_def)
qed

lemma request_new_pad_sorted:
  assumes "zsorted (sinkpads mix)" and "zorders_in_range (sinkpads mix)"
    and "numpads mix < 2147483648"
  shows "zsorted (sinkpads (gst_basemixer_request_new_pad mix created))"
proof (cases created)
  case None
  with assms(1) show ?thesis by (simp add: gst_basemixer_request_new_pad_def)
next
  case (Some mixpad)
  let ?d = "mixpad\<lparr>zorder := numpads mix, start_time := - 1, end_time := - 1\<rparr>"
  have "zorders_in_range (?d # sinkpads mix)"
    using assms(2,3) by (simp add: zorders_in_range_def)
  from in_range_compare(2) [OF this]
  have "\<forall>b\<in>set (sinkpads mix). (0 < pad_zorder_compare ?d b) = (zorder b < zorder ?d)"
    by simp
  moreover have "sorted (map zorder (sinkpads mix))"
    using assms(1) by (simp add: zsorted_def)
  ultimately have "sorted (map zorder (g_slist_insert_sorted (sinkpads mix) ?d pad_zorder_compare))"
    by (rule insert_sorted_sorted)
  with Some show ?thesis by (simp add: zsorted_def gst_basemixer_request_new_pad_def)
qed

lemma convert_zorder:
  "map zorder (snd (update_converters_convert e bf bi l)) = map zorder l"
  by (induction l) (auto simp: Let_def split: prod.splits)

lemma convert_zorder_eq:
  "update_converters_convert e bf bi l = (r, l') \<Longrightarrow> map zorder l' = map zorder l"
  by (metis convert_zorder snd_conv)

lemma update_converters_zorder:
  "gst_basemixer_update_converters e m = Some (r, m', out) \<Longrightarrow>
   map zorder (sinkpads m') = map zorder (sinkpads m)"
  by (auto simp: gst_basemixer_update_converters_def Let_def dest: convert_zorder_eq
      split: option.splits if_splits prod.splits)

lemma src_setcaps_sinkpads:
  "sinkpads (snd (gst_basemixer_src_setcaps e m c)) = sinkpads m"
  by (simp add: gst_basemixer_src_setcaps_def Let_def gst_basemixer_reset_qos_def
      gst_basemixer_update_qos_def split: option.splits)

lemma update_src_caps_sinkpads:
  "sinkpads (snd (gst_basemixer_update_src_caps e m)) = sinkpads m"
  by (simp add: gst_basemixer_update_src_caps_def Let_def src_setcaps_sinkpads
      split: option.splits prod.splits)

lemma release_pad_sorted:
  assumes "zsorted (sinkpads mix)" and "gst_basemixer_release_pad e mix n = Some mix'"
  shows "zsorted (sinkpads mix')"
proof (cases "g_slist_find (sinkpads mix) n")
  case None
  with assms show ?thesis by (simp add: gst_basemixer_release_pad_def)
next
  case (Some mixpad)
  let ?m = "mix\<lparr>sinkpads := g_slist_remove (sinkpads mix) n, numpads := numpads mix - 1\<rparr>"
  from Some assms(2) obtain r m1 out where
    u: "gst_basemixer_update_converters e ?m = Some (r, m1, out)"
    and m': "mix' = snd (gst_basemixer_update_src_caps e m1) \<or> mix' = m1"
    by (auto simp: gst_basemixer_release_pad_def split: option.splits if_splits)
  have "map zorder (sinkpads mix') = map zorder (sinkpads m1)"
    using m' by (auto simp: update_src_caps_sinkpads)
  also have "\<dots> = map zorder (g_slist_remove (sinkpads mix) n)"
    using update_converters_zorder [OF u] by simp
  finally show ?thesis
    using remove_sorted [of "sinkpads mix" n] assms(1) by (simp add: zsorted_def)
qed

lemma mix_frames_loop_names:
  "composite_names (mix_frames_loop ov l) = map pad_name (composited l)"
  by (induction l) (auto simp: composited_def split: option.splits)

lemma mix_frames_names:
  "composite_names (gst_videomixer2_mix_frames mix) = map pad_name (composited (sinkpads mix))"
  by (cases "background mix") (simp_all add: gst_videomixer2_mix_frames_def mix_frames_loop_names)

lemma sorted_before:
  assumes "sorted (map zorder cs)" "i < length cs" "j < length cs"
    "zorder (cs ! i) < zorder (cs ! j)"
  shows "i < j"
proof (rule ccontr)
  assume "\<not> i < j"
  then have "j \<le> i" by simp
  with assms(1,2) have "map zorder cs ! j \<le> map zorder cs ! i"
    by (intro sorted_nth_mono) simp_all
  with assms show False by simp
qed

lemma prepare_pad_fields:
  "pad_name (blend_prepare_pad e i p) = pad_name p"
  "mixed_frame p = None \<Longrightarrow>
     (mixed_frame (blend_prepare_pad e i p) \<noteq> None) = (pad_buffer p \<noteq> None)"
  by (auto simp: blend_prepare_pad_def Let_def split: option.splits)

lemma prepared_composited:
  "list_all (\<lambda>p. mixed_frame p = None) l \<Longrightarrow>
   map pad_name (composited (map (blend_prepare_pad e i) l)) =
     map pad_name (filter (\<lambda>p. pad_buffer p \<noteq> None) l)"
proof (induction l)
  case Nil
  show ?case by (simp add: composited_def)
next
  case (Cons p l)
  then have m: "mixed_frame p = None" and l: "list_all (\<lambda>p. mixed_frame p = None) l"
    by simp_all
  show ?case
    using Cons.IH [OF l] prepare_pad_fields(2) [OF m, of e i]
    by (auto simp: composited_def prepare_pad_fields(1))
qed

lemma blend_buffers_names:
  "list_all (\<lambda>p. mixed_frame p = None) (sinkpads mix) \<Longrightarrow>
   composite_names (out_paints (fst (gst_basemixer_blend_buffers e mix os oe))) =
     map pad_name (filter (\<lambda>p. pad_buffer p \<noteq> None) (sinkpads mix))"
  by (simp add: gst_basemixer_blend_buffers_def Let_def mix_frames_names prepared_composited)

text \<open>
  C9. With z-orders in the range the property admits, the pad list is sorted ascending
  by z-order after a write to a pad's \<^verbatim>\<open>zorder\<close> property; a pad request and a pad
  release keep a sorted list sorted. \<^verbatim>\<open>mix_frames\<close> composites the pads that have a
  mixed frame in list order, and \<^verbatim>\<open>blend_buffers\<close> gives a mixed frame to the pads
  with a current buffer; so in a sorted list, of two contributing pads the one with
  the lower z-order is composited first.
\<close>

theorem pad_list_sorted_by_zorder:
  "(zorders_in_range (sinkpads mix) \<and> v < 2147483648 \<longrightarrow>
      zsorted (sinkpads (gst_basemixer_pad_set_property mix n v))) \<and>
   (zsorted (sinkpads mix) \<and> zorders_in_range (sinkpads mix) \<and> numpads mix < 2147483648 \<longrightarrow>
      zsorted (sinkpads (gst_basemixer_request_new_pad mix created))) \<and>
   (zsorted (sinkpads mix) \<and> gst_basemixer_release_pad e mix n = Some mix' \<longrightarrow>
      zsorted (sinkpads mix')) \<and>
   composite_names (gst_videomixer2_mix_frames mix) = map pad_name (composited (sinkpads mix)) \<and>
   (list_all (\<lambda>p. mixed_frame p = None) (sinkpads mix) \<longrightarrow>
      composite_names (out_paints (fst (gst_basemixer_blend_buffers e mix os oe))) =
        map pad_name (filter (\<lambda>p. pad_buffer p \<noteq> None) (sinkpads mix))) \<and>
   (zsorted (sinkpads mix) \<longrightarrow>
      (\<forall>i j. i < length (composited (sinkpads mix)) \<and> j < length (composited (sinkpads mix)) \<and>
             zorder (composited (sinkpads mix) ! i) < zorder (composited (sinkpads mix) ! j) \<longrightarrow>
             i < j))"
proof -
  have "sorted (map zorder (composited (sinkpads mix)))" if "zsorted (sinkpads mix)"
    using that unfolding zsorted_def composited_def by (rule sorted_filter)
  then show ?thesis
    using set_property_sorted [where mix = mix and v = v and n = n]
      request_new_pad_sorted [where mix = mix and created = created]
      release_pad_sorted [where mix = mix and e = e and n = n and mix' = mix']
      mix_frames_names [where mix = mix]
      blend_buffers_names [where mix = mix and e = e and os = os and oe = oe]
      sorted_before [where cs = "composited (sinkpads mix)"]
    by blast
qed

theorem pad_list_sorted_by_zorder_witness:
  "zorders_in_range (sinkpads z_mixer) \<and> zsorted (sinkpads z_mixer) \<and>
   zsorted (sinkpads (gst_basemixer_pad_set_property z_mixer ''sink_0'' 5)) \<and>
   map pad_name (sinkpads (gst_basemixer_pad_set_property z_mixer ''sink_0'' 5))
     = [''sink_1'', ''sink_0''] \<and>
   zsorted (sinkpads (gst_basemixer_request_new_pad z_mixer (Some (pad_object ''sink_2'')))) \<and>
   (\<exists>mix'. gst_basemixer_release_pad (framework None gst_video_info_init) z_mixer ''sink_0''
             = Some mix' \<and> zsorted (sinkpads mix'))"
proof -
  have r: "zorders_in_range (sinkpads z_mixer)" "zsorted (sinkpads z_mixer)"
    "numpads z_mixer < 2147483648" "(5 :: 32 word) < 2147483648"
    by (simp_all add: zorders_in_range_def zsorted_def z_mixer_def two_pads_def pad_object_def)
  have n: "map pad_name (sinkpads (gst_basemixer_pad_set_property z_mixer ''sink_0'' 5))
             = [''sink_1'', ''sink_0'']"
    by (simp add: gst_basemixer_pad_set_property_def z_mixer_def two_pads_def pad_object_def
        pad_zorder_compare_def)
  have rel: "gst_basemixer_release_pad (framework None gst_video_info_init) z_mixer ''sink_0''
      = Some (z_mixer\<lparr>sinkpads := [(pad_object ''sink_1'')
                 \<lparr>pad_info := video_info AYUV 100 100 10 1, zorder := 1\<rparr>], numpads := 1\<rparr>)"
    by (simp add: gst_basemixer_release_pad_def g_slist_find_def
        gst_basemixer_update_converters_def framework_def z_mixer_def two_pads_def
        pad_object_def GST_VIDEO_INFO_FORMAT_def mixer_object_def gst_basemixer_reset_def
        gst_basemixer_reset_qos_def gst_basemixer_update_qos_def gst_video_info_init_def
        gst_video_format_get_info_def)
  show ?thesis
    using pad_list_sorted_by_zorder [where mix = z_mixer and v = 5 and n = "''sink_0''"
        and created = "Some (pad_object ''sink_2'')"
        and e = "framework None gst_video_info_init"
        and mix' = "z_mixer\<lparr>sinkpads := [(pad_object ''sink_1'')
                 \<lparr>pad_info := video_info AYUV 100 100 10 1, zorder := 1\<rparr>], numpads := 1\<rparr>"]
      r n rel
    by blast
qed

section \<open>Theorems: the output clock\<close>

lemma output_end_time_cadence:
  "output_end_time mix = clamp_stop mix (cadence mix (nframes mix + 1))"
  by (simp add: output_end_time_def clamp_stop_def cadence_def frame_num_def frame_den_def Let_def)

lemma scale_round_zero:
  assumes "den \<noteq> 0"
  shows "gst_util_uint64_scale_round 0 num den = 0"
proof -
  from assms have "0 < unat den" by (simp add: unat_gt_0)
  then have "unat den div 2 < unat den" by simp
  then have "unat den div 2 div unat den = 0" by simp
  with assms show ?thesis by (simp add: gst_util_uint64_scale_round_def)
qed

lemma scale_round_mono:
  assumes "den \<noteq> 0" "k \<le> k'"
  shows "gst_util_uint64_scale_round k num den \<le> gst_util_uint64_scale_round k' num den"
proof -
  let ?q = "\<lambda>k. (unat k * unat num + unat den div 2) div unat den"
  have le: "?q k \<le> ?q k'"
    using assms(2) by (intro div_le_mono add_le_mono mult_le_mono) (simp_all add: word_le_nat_alt)
  show ?thesis
  proof (cases "?q k' < 2 ^ 64")
    case True
    with le have "?q k < 2 ^ 64" by simp
    with True le assms(1) show ?thesis
      by (simp add: gst_util_uint64_scale_round_def Let_def word_le_nat_alt unat_of_nat)
  next
    case False
    with assms(1) show ?thesis
      by (simp add: gst_util_uint64_scale_round_def Let_def G_MAXUINT64_def)
  qed
qed

lemma word_le_succ: "(k :: 64 word) \<noteq> - 1 \<Longrightarrow> k \<le> k + 1"
  by (metis inc_less_eq_self_iff_eq linorder_le_cases)

lemma cadence_unat:
  assumes "unat (ts_offset mix) + unat (gst_util_uint64_scale_round k (frame_num mix) (frame_den mix)) +
       unat (seg_start (segment mix)) < 2 ^ 64"
  shows "unat (cadence mix k) = unat (ts_offset mix) +
       unat (gst_util_uint64_scale_round k (frame_num mix) (frame_den mix)) +
       unat (seg_start (segment mix))"
  using assms by (simp add: cadence_def unat_word_ariths)


lemma word_less_succ: "(k :: 64 word) \<noteq> - 1 \<Longrightarrow> k < k + 1"
  by (metis inc_less_eq_self_iff_eq linorder_not_less)

lemma scale_round_strict:
  assumes "den \<noteq> 0" "k \<noteq> - 1" "unat den \<le> unat num"
    and "(unat (k + 1) * unat num + unat den div 2) div unat den < 2 ^ 64"
  shows "gst_util_uint64_scale_round k num den < gst_util_uint64_scale_round (k + 1) num den"
proof -
  let ?q = "\<lambda>k. (unat k * unat num + unat den div 2) div unat den"
  have d: "0 < unat den" using assms(1) by (simp add: unat_gt_0)
  have "1 + k \<noteq> 0"
    using assms(2) by (metis add.commute eq_neg_iff_add_eq_0)
  then have k1: "unat (k + 1) = unat k + 1"
    using unatSuc [of k] by (simp add: add.commute)
  have "?q k + 1 = (unat k * unat num + unat den div 2 + unat den) div unat den"
    using d by simp
  also have "\<dots> \<le> (unat k * unat num + unat den div 2 + unat num) div unat den"
    using assms(3) by (intro div_le_mono) simp
  also have "\<dots> = ?q (k + 1)"
    unfolding k1 by (simp add: algebra_simps)
  finally have lt: "?q k < ?q (k + 1)" by simp
  with assms(4) have "?q k < 2 ^ 64" by simp
  with lt assms(1,4) show ?thesis
    by (simp add: gst_util_uint64_scale_round_def Let_def word_less_nat_alt unat_of_nat)
qed

lemma cadence_mono:
  assumes "no_overflow mix"
  shows "cadence mix (nframes mix) \<le> cadence mix (nframes mix + 1)"
proof -
  let ?D = "\<lambda>k. gst_util_uint64_scale_round k (frame_num mix) (frame_den mix)"
  from assms have den: "frame_den mix \<noteq> 0" and n: "nframes mix \<noteq> - 1"
    and ov: "unat (ts_offset mix) + unat (?D (nframes mix + 1)) +
             unat (seg_start (segment mix)) < 2 ^ 64 - 1"
    by (simp_all add: no_overflow_def)
  have "?D (nframes mix) \<le> ?D (nframes mix + 1)"
    using den word_le_succ [OF n] by (rule scale_round_mono)
  then have le: "unat (?D (nframes mix)) \<le> unat (?D (nframes mix + 1))"
    by (simp add: word_le_nat_alt)
  with ov have ov': "unat (ts_offset mix) + unat (?D (nframes mix)) +
             unat (seg_start (segment mix)) < 2 ^ 64" by simp
  from ov have ov1: "unat (ts_offset mix) + unat (?D (nframes mix + 1)) +
             unat (seg_start (segment mix)) < 2 ^ 64" by simp
  show ?thesis
    using le by (simp add: word_le_nat_alt cadence_unat [OF ov'] cadence_unat [OF ov1])
qed

lemma cadence_strict:
  assumes "no_overflow mix" and "unat (frame_den mix) \<le> unat (frame_num mix)"
    and "(unat (nframes mix + 1) * unat (frame_num mix) + unat (frame_den mix) div 2)
           div unat (frame_den mix) < 2 ^ 64"
  shows "cadence mix (nframes mix) < cadence mix (nframes mix + 1)"
proof -
  let ?D = "\<lambda>k. gst_util_uint64_scale_round k (frame_num mix) (frame_den mix)"
  from assms have den: "frame_den mix \<noteq> 0" and n: "nframes mix \<noteq> - 1"
    and ov: "unat (ts_offset mix) + unat (?D (nframes mix + 1)) +
             unat (seg_start (segment mix)) < 2 ^ 64 - 1"
    by (simp_all add: no_overflow_def)
  have "?D (nframes mix) < ?D (nframes mix + 1)"
    using den n assms(2,3) by (rule scale_round_strict)
  then have le: "unat (?D (nframes mix)) < unat (?D (nframes mix + 1))"
    by (simp add: word_less_nat_alt)
  with ov have ov': "unat (ts_offset mix) + unat (?D (nframes mix)) +
             unat (seg_start (segment mix)) < 2 ^ 64" by simp
  from ov have ov1: "unat (ts_offset mix) + unat (?D (nframes mix + 1)) +
             unat (seg_start (segment mix)) < 2 ^ 64" by simp
  show ?thesis
    using le by (simp add: word_less_nat_alt cadence_unat [OF ov'] cadence_unat [OF ov1])
qed

lemma cadence_ge_start:
  assumes "no_overflow mix"
  shows "seg_start (segment mix) \<le> cadence mix (nframes mix + 1)"
    and "cadence mix (nframes mix + 1) \<noteq> - 1"
proof -
  let ?D = "\<lambda>k. gst_util_uint64_scale_round k (frame_num mix) (frame_den mix)"
  from assms have ov: "unat (ts_offset mix) + unat (?D (nframes mix + 1)) +
             unat (seg_start (segment mix)) < 2 ^ 64 - 1"
    by (simp add: no_overflow_def)
  then have ov1: "unat (ts_offset mix) + unat (?D (nframes mix + 1)) +
             unat (seg_start (segment mix)) < 2 ^ 64" by simp
  show "seg_start (segment mix) \<le> cadence mix (nframes mix + 1)"
    by (simp add: word_le_nat_alt cadence_unat [OF ov1])
  have m: "unat (- 1 :: 64 word) = 2 ^ 64 - 1"
    by (simp add: unsigned_minus_1_eq_mask mask_eq_exp_minus_1)
  have "unat (cadence mix (nframes mix + 1)) \<noteq> unat (- 1 :: 64 word)"
    using ov unfolding m cadence_unat [OF ov1] by simp
  then show "cadence mix (nframes mix + 1) \<noteq> - 1" by auto
qed


lemma reanchored_refl: "reanchored m m"
  by (simp add: reanchored_def)

lemma reanchored_trans: "reanchored a b \<Longrightarrow> reanchored b c \<Longrightarrow> reanchored a c"
  by (auto simp: reanchored_def)

lemma reset_qos_reanchored: "reanchored m (gst_basemixer_reset_qos m)"
  by (simp add: reanchored_def gst_basemixer_reset_qos_def gst_basemixer_update_qos_def)

lemma anchor_reanchored:
  "reanchored m (m\<lparr>ts_offset := seg_position (segment m) - seg_start (segment m), nframes := 0\<rparr>)"
  by (simp add: reanchored_def)

lemma src_setcaps_reanchored: "reanchored m (snd (gst_basemixer_src_setcaps e m c))"
proof (cases "video_info_from_caps e c")
  case None
  then show ?thesis by (simp add: gst_basemixer_src_setcaps_def reanchored_refl)
next
  case (Some i)
  let ?a = "m\<lparr>ts_offset := seg_position (segment m) - seg_start (segment m), nframes := 0\<rparr>"
  show ?thesis
  proof (cases "fps_n (info m) \<noteq> fps_n i \<or> fps_d (info m) \<noteq> fps_d i")
    case False
    with Some show ?thesis
      by (simp add: gst_basemixer_src_setcaps_def Let_def reanchored_def)
  next
    case True
    have "reanchored m (gst_basemixer_reset_qos (if seg_position (segment m) \<noteq> - 1 then ?a else m))"
      (is "reanchored m ?r")
      by (simp add: reanchored_def gst_basemixer_reset_qos_def gst_basemixer_update_qos_def)
    moreover have "segment (snd (gst_basemixer_src_setcaps e m c)) = segment ?r"
      "ts_offset (snd (gst_basemixer_src_setcaps e m c)) = ts_offset ?r"
      "nframes (snd (gst_basemixer_src_setcaps e m c)) = nframes ?r"
      using Some True by (simp_all add: gst_basemixer_src_setcaps_def Let_def)
    ultimately show ?thesis
      by (auto simp: reanchored_def gst_basemixer_reset_qos_def gst_basemixer_update_qos_def)
  qed
qed

lemma update_src_caps_reanchored: "reanchored m (snd (gst_basemixer_update_src_caps e m))"
proof -
  define b where "b = update_src_caps_best (sinkpads m)"
  define m1 where "m1 = (if (fps_n (info m) \<noteq> best_fps_n b \<or> fps_d (info m) \<noteq> best_fps_d b) \<and>
                      seg_position (segment m) \<noteq> - 1
                   then m\<lparr>ts_offset := seg_position (segment m) - seg_start (segment m),
                            nframes := 0\<rparr>
                   else m)"
  define i where "i = (gst_video_info_set_format e gst_video_info_init
                       (GST_VIDEO_INFO_FORMAT (info m)) (best_width b) (best_height b))
                      \<lparr>fps_n := best_fps_n b, fps_d := best_fps_d b,
                       par_n := par_n (info m), par_d := par_d (info m)\<rparr>"
  have u: "gst_basemixer_update_src_caps e m =
     (if 0 < best_width b \<and> 0 < best_height b \<and> 0 < best_fps b then
        (case gst_videomixer2_modify_src_pad_info e m1 i of
           None \<Rightarrow> (False, m1)
         | Some i1 \<Rightarrow>
             (case peer_query_caps e of
                None \<Rightarrow> gst_basemixer_src_setcaps e m1 i1
              | Some peer \<Rightarrow>
                  (case peer i1 of
                     None \<Rightarrow> (False, m1)
                   | Some (w, h, n, d) \<Rightarrow>
                       gst_basemixer_src_setcaps e m1
                         (i1\<lparr>width := w, height := h, fps_n := n, fps_d := d\<rparr>))))
      else (True, m))"
    unfolding gst_basemixer_update_src_caps_def Let_def b_def m1_def i_def ..
  have a: "reanchored m m1"
    by (simp add: reanchored_def m1_def)
  have s: "reanchored m (snd (gst_basemixer_src_setcaps e m1 c))" for c
    using a src_setcaps_reanchored by (rule reanchored_trans)
  show ?thesis
    unfolding u using a s reanchored_refl [of m]
    by (simp split: option.split prod.split)
qed

lemma prepare_reanchored: "reanchored m (fst (aggregate_prepare e m))"
proof -
  have r: "reanchored m (m\<lparr>srcpad_reconfigure := False\<rparr>)"
    by (simp add: reanchored_def)
  have "reanchored m (if srcpad_reconfigure m
                  then snd (gst_basemixer_update_src_caps e (m\<lparr>srcpad_reconfigure := False\<rparr>))
                  else m)" (is "reanchored m ?m1")
    using reanchored_trans [OF r update_src_caps_reanchored] reanchored_refl by simp
  moreover have "segment (fst (aggregate_prepare e m)) = segment ?m1"
     "ts_offset (fst (aggregate_prepare e m)) = ts_offset ?m1"
     "nframes (fst (aggregate_prepare e m)) = nframes ?m1"
     "info (fst (aggregate_prepare e m)) = info ?m1"
    by (simp_all add: aggregate_prepare_def Let_def)
  ultimately show ?thesis
    by (simp add: reanchored_def)
qed

lemma clamp_stop_le:
  "seg_stop (segment m) \<noteq> - 1 \<Longrightarrow> clamp_stop m t \<le> seg_stop (segment m)"
  by (simp add: clamp_stop_def)

lemma reanchored_on_cadence:
  assumes "reanchored m m'" "on_cadence m" "frame_den m' \<noteq> 0"
  shows "on_cadence m'"
proof -
  from assms(1) have seg: "segment m' = segment m" by (simp add: reanchored_def)
  from assms(1) consider
      (same) "ts_offset m' = ts_offset m" "nframes m' = nframes m"
        "fps_n (info m') = fps_n (info m)" "fps_d (info m') = fps_d (info m)"
    | (none) "seg_position (segment m) = - 1"
    | (anchor) "seg_position (segment m) \<noteq> - 1"
        "ts_offset m' = seg_position (segment m) - seg_start (segment m)" "nframes m' = 0"
    by (auto simp: reanchored_def)
  then show ?thesis
  proof cases
    case same
    then have "cadence m' (nframes m') = cadence m (nframes m)"
      by (simp add: cadence_def frame_num_def frame_den_def seg)
    with assms(2) show ?thesis
      by (auto simp add: on_cadence_def clamp_stop_def seg)
  next
    case none
    then show ?thesis by (simp add: on_cadence_def seg)
  next
    case anchor
    have c: "cadence m' (nframes m') = seg_position (segment m)"
      using anchor assms(3) by (simp add: cadence_def seg scale_round_zero frame_den_def)
    from assms(2) anchor(1) have "seg_position (segment m) = clamp_stop m (cadence m (nframes m))"
      by (simp add: on_cadence_def)
    then have "seg_stop (segment m) \<noteq> - 1 \<Longrightarrow> seg_position (segment m) \<le> seg_stop (segment m)"
      using clamp_stop_le [of m] by metis
    then have "clamp_stop m' (seg_position (segment m)) = seg_position (segment m)"
      by (auto simp: clamp_stop_def seg min_def)
    with c show ?thesis by (simp add: on_cadence_def seg)
  qed
qed


lemma cadence_ge_start_now:
  assumes "no_overflow mix"
  shows "seg_start (segment mix) \<le> cadence mix (nframes mix)"
proof -
  let ?D = "\<lambda>k. gst_util_uint64_scale_round k (frame_num mix) (frame_den mix)"
  from assms have den: "frame_den mix \<noteq> 0" and n: "nframes mix \<noteq> - 1"
    and ov: "unat (ts_offset mix) + unat (?D (nframes mix + 1)) +
             unat (seg_start (segment mix)) < 2 ^ 64 - 1"
    by (simp_all add: no_overflow_def)
  have "?D (nframes mix) \<le> ?D (nframes mix + 1)"
    using den word_le_succ [OF n] by (rule scale_round_mono)
  then have le: "unat (?D (nframes mix)) \<le> unat (?D (nframes mix + 1))"
    by (simp add: word_le_nat_alt)
  with ov have ov': "unat (ts_offset mix) + unat (?D (nframes mix)) +
             unat (seg_start (segment mix)) < 2 ^ 64" by simp
  show ?thesis
    by (simp add: word_le_nat_alt cadence_unat [OF ov'])
qed

lemma tick_times:
  assumes inv: "on_cadence mix" and side: "no_overflow mix"
  shows "output_start_time mix \<le> output_end_time mix"
    and "output_end_time mix \<noteq> - 1"
    and "advancing mix \<Longrightarrow> output_start_time mix < output_end_time mix"
proof -
  let ?p = "seg_position (segment mix)" and ?s = "seg_start (segment mix)"
  let ?stop = "seg_stop (segment mix)"
  let ?c0 = "cadence mix (nframes mix)" and ?c1 = "cadence mix (nframes mix + 1)"
  have mono: "?c0 \<le> ?c1" using side by (rule cadence_mono)
  have s0: "?s \<le> ?c0" using side by (rule cadence_ge_start_now)
  have c1: "?c1 \<noteq> - 1" using side by (rule cadence_ge_start(2))
  have st: "?stop = - 1 \<or> ?s \<le> ?stop" using side by (simp add: no_overflow_def)
  have oe: "output_end_time mix = (if ?stop \<noteq> - 1 then min ?c1 ?stop else ?c1)"
    by (simp add: output_end_time_cadence clamp_stop_def)
  have os: "output_start_time mix = ?s \<or>
            output_start_time mix = (if ?stop \<noteq> - 1 then min ?c0 ?stop else ?c0)"
    using inv by (auto simp: output_start_time_def on_cadence_def clamp_stop_def)
  show "output_start_time mix \<le> output_end_time mix"
    using os mono s0 st unfolding oe by (auto simp: min_def)
  show "output_end_time mix \<noteq> - 1"
    using c1 unfolding oe by (auto simp: min_def)
  show "output_start_time mix < output_end_time mix" if adv: "advancing mix"
  proof -
    have strict: "?c0 < ?c1"
      using side adv by (intro cadence_strict) (simp_all add: advancing_def)
    have lt: "?stop = - 1 \<or> output_start_time mix < ?stop"
      using adv by (simp add: advancing_def)
    show ?thesis
      using os strict s0 lt unfolding oe by (auto simp: min_def)
  qed
qed

lemma emit_fields:
  assumes "aggregate_emit e mf os oe = (ret, m', out)"
  shows "segment m' = (segment mf)\<lparr>seg_position := oe\<rparr>" "nframes m' = nframes mf + 1"
    "ts_offset m' = ts_offset mf" "info m' = info mf"
    "pushed_timestamps out = [] \<or> pushed_timestamps out = [os]"
proof -
  obtain ob m5 where bb: "gst_basemixer_blend_buffers e mf os oe = (ob, m5)"
    by (cases "gst_basemixer_blend_buffers e mf os oe")
  have b: "segment m5 = segment mf" "nframes m5 = nframes mf" "out_timestamp ob = os"
     "ts_offset m5 = ts_offset mf" "info m5 = info mf"
    using bb by (auto simp: gst_basemixer_blend_buffers_def Let_def)
  show "segment m' = (segment mf)\<lparr>seg_position := oe\<rparr>" "nframes m' = nframes mf + 1"
    "ts_offset m' = ts_offset mf" "info m' = info mf"
    "pushed_timestamps out = [] \<or> pushed_timestamps out = [os]"
    using assms b by (auto simp: aggregate_emit_def Let_def bb split: if_splits)
qed

lemma fill_fields:
  assumes "gst_basemixer_fill_queues e m os oe = Some (r, m')"
  shows "segment m' = segment m" "nframes m' = nframes m" "ts_offset m' = ts_offset m"
    "info m' = info m"
  using assms by (auto simp: gst_basemixer_fill_queues_def split: option.splits)

lemma prepare_pushes: "pushed_timestamps (snd (aggregate_prepare e m)) = []"
  by (simp add: aggregate_prepare_def Let_def split: option.splits)

lemma pushed_append: "pushed_timestamps (a @ b) = pushed_timestamps a @ pushed_timestamps b"
  by (induction a rule: pushed_timestamps.induct) simp_all

lemma same_cadence:
  assumes "segment m' = segment m" "nframes m' = nframes m" "ts_offset m' = ts_offset m"
    "info m' = info m"
  shows "on_cadence m' = on_cadence m" "output_start_time m' = output_start_time m"
  using assms
  by (simp_all add: on_cadence_def clamp_stop_def cadence_def frame_num_def frame_den_def
      output_start_time_def)

lemma tick_step:
  assumes agg: "gst_basemixer_aggregate e m = Some (ret, m', outs)"
    and inv: "on_cadence m"
    and side: "no_overflow (fst (aggregate_prepare e m))"
  shows "on_cadence m'"
    and "output_start_time m \<le> output_start_time m'"
    and "pushed_timestamps outs = [] \<or> pushed_timestamps outs = [output_start_time m]"
    and "advancing (fst (aggregate_prepare e m)) \<Longrightarrow> pushed_timestamps outs \<noteq> [] \<Longrightarrow>
           output_start_time m < output_start_time m'"
    and "pushed_timestamps outs \<noteq> [] \<Longrightarrow>
           seg_position (segment m') = output_end_time (fst (aggregate_prepare e m))"
proof -
  obtain mix out where prep: "aggregate_prepare e m = (mix, out)"
    by (cases "aggregate_prepare e m")
  have re: "reanchored m mix" using prepare_reanchored [of m e] prep by simp
  from side prep have so: "no_overflow mix" by simp
  then have den: "frame_den mix \<noteq> 0" by (simp add: no_overflow_def)
  have cmix: "on_cadence mix" using re inv den by (rule reanchored_on_cadence)
  have osm: "output_start_time mix = output_start_time m"
    using re by (simp add: output_start_time_def reanchored_def)
  have po: "pushed_timestamps out = []" using prepare_pushes [of e m] prep by simp
  note tt = tick_times [OF cmix so]
  have "on_cadence m' \<and> output_start_time m \<le> output_start_time m' \<and>
        (pushed_timestamps outs = [] \<or> pushed_timestamps outs = [output_start_time m]) \<and>
        (advancing mix \<longrightarrow> pushed_timestamps outs \<noteq> [] \<longrightarrow>
           output_start_time m < output_start_time m') \<and>
        (pushed_timestamps outs \<noteq> [] \<longrightarrow> seg_position (segment m') = output_end_time mix)"
  proof (cases "GST_VIDEO_INFO_FORMAT (info m) = UNKNOWN")
    case True
    with agg inv show ?thesis by (simp add: gst_basemixer_aggregate_def)
  next
    case False
    with agg prep obtain res mf where
      fill: "gst_basemixer_fill_queues e mix (output_start_time mix) (output_end_time mix)
             = Some (res, mf)"
      by (auto simp: gst_basemixer_aggregate_def split: option.splits)
    note ff = fill_fields [OF fill]
    show ?thesis
    proof (cases "res = 0 \<or> res = - 1 \<or> res = - 2")
      case True
      with agg prep False fill po have "m' = mf" "pushed_timestamps outs = []"
        by (auto simp: gst_basemixer_aggregate_def pushed_append split: if_splits)
      with same_cadence [OF ff] cmix osm show ?thesis by simp
    next
      case nz: False
      obtain r m5 o5 where em: "aggregate_emit e mf (output_start_time mix) (output_end_time mix)
          = (r, m5, o5)"
        by (cases "aggregate_emit e mf (output_start_time mix) (output_end_time mix)")
      with agg prep False fill nz have m': "m' = m5" and outs: "outs = out @ o5"
        by (auto simp: gst_basemixer_aggregate_def)
      note ef = emit_fields [OF em]
      have pos: "seg_position (segment m') = output_end_time mix"
        and other: "seg_start (segment m') = seg_start (segment mix)"
          "seg_stop (segment m') = seg_stop (segment mix)"
          "nframes m' = nframes mix + 1" "ts_offset m' = ts_offset mix" "info m' = info mix"
        using ef ff m' by simp_all
      have c: "on_cadence m'"
        using pos other
        by (simp add: on_cadence_def output_end_time_cadence clamp_stop_def cadence_def
            frame_num_def frame_den_def)
      have os': "output_start_time m' = output_end_time mix"
        using pos tt(2) by (simp add: output_start_time_def)
      have p: "pushed_timestamps outs = [] \<or> pushed_timestamps outs = [output_start_time m]"
        using ef(5) by (simp add: outs pushed_append po osm)
      show ?thesis
        using c os' p tt(1) tt(3) osm pos by simp
    qed
  qed
  with prep show "on_cadence m'"
    and "output_start_time m \<le> output_start_time m'"
    and "pushed_timestamps outs = [] \<or> pushed_timestamps outs = [output_start_time m]"
    and "advancing (fst (aggregate_prepare e m)) \<Longrightarrow> pushed_timestamps outs \<noteq> [] \<Longrightarrow>
           output_start_time m < output_start_time m'"
    and "pushed_timestamps outs \<noteq> [] \<Longrightarrow>
           seg_position (segment m') = output_end_time (fst (aggregate_prepare e m))"
    by simp_all
qed


lemmas tick_defs = gst_basemixer_aggregate_def aggregate_prepare_def aggregate_emit_def
  gst_basemixer_do_qos_def GST_CLOCK_TIME_IS_VALID_def gst_basemixer_blend_buffers_def
  blend_prepare_pad_def gst_videomixer2_mix_frames_def GST_VIDEO_INFO_FORMAT_def
  tick_time_defs filler_defs object_defs word_order.extremum_unique

lemma clamped_tick_0:
  "gst_basemixer_aggregate (framework None gst_video_info_init) clamped_mixer =
     Some (GST_FLOW_OK, clamped_mixer_at 1, [FinishBuffer (clamped_frame 0 100000000)])"
  by (simp add: tick_defs clamped_mixer_def clamped_mixer_at_def clamped_pads_def
      clamped_frame_def clamped_buffer_def)

lemma clamped_tick_1:
  "gst_basemixer_aggregate (framework None gst_video_info_init) (clamped_mixer_at 1) =
     Some (GST_FLOW_OK, clamped_mixer_at 2, [FinishBuffer (clamped_frame 100000000 0)])"
  by (simp add: tick_defs clamped_mixer_def clamped_mixer_at_def clamped_pads_def
      clamped_frame_def clamped_buffer_def)

lemma clamped_tick_2:
  "gst_basemixer_aggregate (framework None gst_video_info_init) (clamped_mixer_at 2) =
     Some (GST_FLOW_OK, clamped_mixer_at 3, [FinishBuffer (clamped_frame 100000000 0)])"
  by (simp add: tick_defs clamped_mixer_def clamped_mixer_at_def clamped_pads_def
      clamped_frame_def clamped_buffer_def)


lemma run_monotone:
  assumes "on_cadence m" "ticks_satisfy no_overflow e k m"
    "aggregate_ticks e k m = Some (m', outs)"
  shows "on_cadence m' \<and> output_start_time m \<le> output_start_time m' \<and>
         (\<forall>t\<in>set (pushed_timestamps outs). output_start_time m \<le> t) \<and>
         sorted (pushed_timestamps outs) \<and>
         (ticks_satisfy advancing e k m \<longrightarrow> sorted_wrt (<) (pushed_timestamps outs))"
  using assms
proof (induction k arbitrary: m m' outs)
  case 0
  then show ?case by simp
next
  case (Suc k)
  from Suc.prems(3) obtain ret m1 out1 outs1 where
    agg: "gst_basemixer_aggregate e m = Some (ret, m1, out1)"
    and rest: "aggregate_ticks e k m1 = Some (m', outs1)"
    and outs: "outs = out1 @ outs1"
    by (auto split: option.splits)
  from Suc.prems(2) agg have side: "no_overflow (fst (aggregate_prepare e m))"
    and sat: "ticks_satisfy no_overflow e k m1"
    by simp_all
  note st = tick_step [OF agg Suc.prems(1) side]
  note ih = Suc.IH [OF st(1) sat rest]
  let ?a = "output_start_time m" and ?b = "output_start_time m1"
  let ?p1 = "pushed_timestamps out1" and ?ps = "pushed_timestamps outs1"
  have lo: "\<forall>t\<in>set ?ps. ?a \<le> t"
    using ih st(2) by auto
  have p: "pushed_timestamps outs = ?p1 @ ?ps"
    by (simp add: outs pushed_append)
  have s: "sorted (?p1 @ ?ps)"
    using st(3) ih lo by (auto simp: sorted_append)
  have strict: "sorted_wrt (<) (?p1 @ ?ps)" if adv: "ticks_satisfy advancing e (Suc k) m"
  proof -
    from adv agg have a1: "advancing (fst (aggregate_prepare e m))"
      and ak: "ticks_satisfy advancing e k m1" by simp_all
    from ih ak have ss: "sorted_wrt (<) ?ps" by simp
    show ?thesis
    proof (cases "?p1 = []")
      case True
      with ss show ?thesis by simp
    next
      case False
      with st(3) have p1: "?p1 = [?a]" by simp
      from st(4) [OF a1 False] have "?a < ?b" .
      with ih have "\<forall>t\<in>set ?ps. ?a < t" by auto
      with ss p1 show ?thesis by simp
    qed
  qed
  show ?case
    using ih st(2) lo s strict st(3) unfolding p by auto
qed

lemma ticking_tick_0:
  "gst_basemixer_aggregate (framework None gst_video_info_init) ticking_mixer =
     Some (GST_FLOW_OK, ticking_mixer_at 1, [FinishBuffer (ticking_frame 0)])"
  by (simp add: tick_defs ticking_mixer_def ticking_mixer_at_def ticking_pads_def
      ticking_frame_def)

lemma ticking_tick_1:
  "gst_basemixer_aggregate (framework None gst_video_info_init) (ticking_mixer_at 1) =
     Some (GST_FLOW_OK, ticking_mixer_at 2, [FinishBuffer (ticking_frame 100000000)])"
  by (simp add: tick_defs ticking_mixer_def ticking_mixer_at_def ticking_pads_def
      ticking_frame_def)

lemma ticking_prepare_at:
  "aggregate_prepare (framework None gst_video_info_init) (ticking_mixer_at n) =
     (ticking_mixer_at n, [])"
  by (simp add: aggregate_prepare_def ticking_mixer_at_def ticking_mixer_def object_defs)

lemma ticking_side:
  "no_overflow ticking_mixer" "advancing ticking_mixer"
  "no_overflow (ticking_mixer_at 1)" "advancing (ticking_mixer_at 1)"
  by (simp_all add: no_overflow_def advancing_def frame_den_def frame_num_def
      ticking_mixer_at_def ticking_mixer_def tick_time_defs object_defs)

text \<open>
  C2, as the specification states it, fails: after a seek that set the segment stop to
  100 ms, three ticks in a row push buffers stamped 0, 100 ms and 100 ms; at the
  stop the end of the output frame is clamped to its start.
\<close>

theorem timestamps_repeat_at_stop_counterexample:
  "map_option (pushed_timestamps \<circ> snd)
     (aggregate_ticks (framework None gst_video_info_init) 3 clamped_mixer)
     = Some [0, 100000000, 100000000] \<and>
   map_option fst (aggregate_ticks (framework None gst_video_info_init) 1 clamped_mixer)
     = Some (clamped_mixer_at 1) \<and>
   output_start_time (clamped_mixer_at 1) = 100000000 \<and>
   output_end_time (clamped_mixer_at 1) = 100000000"
proof -
  have "aggregate_ticks (framework None gst_video_info_init) (Suc (Suc (Suc 0))) clamped_mixer
      = Some (clamped_mixer_at 3,
              [FinishBuffer (clamped_frame 0 100000000),
               FinishBuffer (clamped_frame 100000000 0),
               FinishBuffer (clamped_frame 100000000 0)])"
    by (simp add: clamped_tick_0 clamped_tick_1 clamped_tick_2)
  moreover have "aggregate_ticks (framework None gst_video_info_init) (Suc 0) clamped_mixer
      = Some (clamped_mixer_at 1, [FinishBuffer (clamped_frame 0 100000000)])"
    by (simp add: clamped_tick_0)
  moreover have "output_start_time (clamped_mixer_at 1) = 100000000"
    "output_end_time (clamped_mixer_at 1) = 100000000"
    by (simp_all add: tick_time_defs clamped_mixer_at_def clamped_mixer_def object_defs)
  ultimately show ?thesis
    by (simp add: numeral_3_eq_3 clamped_frame_def)
qed

text \<open>
  C2, amended. Across any sequence of aggregate ticks with nothing in between, begun
  with the position undefined or on the output cadence, and with a non-zero framerate
  and times that do not overflow 64 bits at each tick: a tick pushes at most one
  buffer, stamped \<open>out_start\<close>, the current position (or the segment start when the
  position is undefined), and then sets the position to \<open>out_end\<close>, which is not
  before \<open>out_start\<close>; so the timestamps of the pushed buffers and the position are
  monotonically non-decreasing. The timestamps are strictly increasing as long as, at
  each tick, \<open>out_start\<close> lies before the segment stop (or the stop is undefined) and
  the frame duration is at least one nanosecond.
\<close>

theorem aggregate_ticks_monotone:
  assumes "on_cadence m" and "ticks_satisfy no_overflow e k m"
    and "aggregate_ticks e k m = Some (m', outs)"
  shows "sorted (pushed_timestamps outs) \<and>
         output_start_time m \<le> output_start_time m' \<and> on_cadence m' \<and>
         (ticks_satisfy advancing e k m \<longrightarrow> sorted_wrt (<) (pushed_timestamps outs)) \<and>
         (\<forall>ret m1 out1. k \<noteq> 0 \<and> gst_basemixer_aggregate e m = Some (ret, m1, out1) \<longrightarrow>
            (pushed_timestamps out1 = [] \<or> pushed_timestamps out1 = [output_start_time m]) \<and>
            (pushed_timestamps out1 \<noteq> [] \<longrightarrow>
               seg_position (segment m1) = output_end_time (fst (aggregate_prepare e m))) \<and>
            output_start_time m \<le> output_start_time m1)"
proof -
  have "(pushed_timestamps out1 = [] \<or> pushed_timestamps out1 = [output_start_time m]) \<and>
        (pushed_timestamps out1 \<noteq> [] \<longrightarrow>
           seg_position (segment m1) = output_end_time (fst (aggregate_prepare e m))) \<and>
        output_start_time m \<le> output_start_time m1"
    if k: "k \<noteq> 0" and agg: "gst_basemixer_aggregate e m = Some (ret, m1, out1)"
    for ret m1 out1
  proof -
    from k obtain k' where "k = Suc k'" by (cases k) auto
    with assms(2) have side: "no_overflow (fst (aggregate_prepare e m))" by simp
    from tick_step [OF agg assms(1) side] show ?thesis by simp
  qed
  with run_monotone [OF assms] show ?thesis by blast
qed

theorem aggregate_ticks_monotone_witness:
  "on_cadence ticking_mixer \<and>
   aggregate_ticks (framework None gst_video_info_init) 2 ticking_mixer =
     Some (ticking_mixer_at 2,
           [FinishBuffer (ticking_frame 0), FinishBuffer (ticking_frame 100000000)]) \<and>
   sorted_wrt (<) (pushed_timestamps
     [FinishBuffer (ticking_frame 0), FinishBuffer (ticking_frame 100000000)]) \<and>
   output_start_time ticking_mixer \<le> output_start_time (ticking_mixer_at 2)"
proof -
  let ?e = "framework None gst_video_info_init"
  have c: "on_cadence ticking_mixer"
    by (simp add: on_cadence_def ticking_mixer_def object_defs)
  have p0: "aggregate_prepare ?e ticking_mixer = (ticking_mixer, [])"
    by (rule ticking_prepare)
  have run: "aggregate_ticks ?e (Suc (Suc 0)) ticking_mixer =
     Some (ticking_mixer_at 2,
           [FinishBuffer (ticking_frame 0), FinishBuffer (ticking_frame 100000000)])"
    by (simp add: ticking_tick_0 ticking_tick_1)
  have s1: "ticks_satisfy no_overflow ?e (Suc (Suc 0)) ticking_mixer"
    by (simp add: ticking_tick_0 ticking_tick_1 p0 ticking_prepare_at ticking_side)
  have s2: "ticks_satisfy advancing ?e (Suc (Suc 0)) ticking_mixer"
    by (simp add: ticking_tick_0 ticking_tick_1 p0 ticking_prepare_at ticking_side)
  show ?thesis
    using aggregate_ticks_monotone [OF c s1 run] s2 c run
    by (simp add: numeral_2_eq_2)
qed

end
